theory Spec2Isabelle
  imports Complex_Main
begin

section \<open>Values received from the ledger service\<close>

text \<open>
  The ledger answers with JSON, and \<^verbatim>\<open>ton_payments.py\<close> reads it with \<^verbatim>\<open>dict.get\<close>
  without checking any type, so the model keeps the values untyped. An object is the
  dictionary \<^verbatim>\<open>json\<close> builds from it (keys distinct, lookup by key). Python floats are
  modelled as exact rationals: the comparisons of the code are kept, rounding and overflow
  are not.
\<close>

datatype json =
    JNull
  | JBool bool
  | JInt int
  | JFloat rat
  | JStr string
  | JList "json list"
  | JObj "(string \<times> json) list"

datatype py_error = AttributeError | TypeError | ValueError | KeyError | InterfaceError

text \<open>\<^verbatim>\<open>if x:\<close> and \<^verbatim>\<open>if not x:\<close> on a decoded value.\<close>

fun truthy :: "json \<Rightarrow> bool" where
  "truthy JNull = False"
| "truthy (JBool b) = b"
| "truthy (JInt i) = (i \<noteq> 0)"
| "truthy (JFloat r) = (r \<noteq> 0)"
| "truthy (JStr s) = (s \<noteq> [])"
| "truthy (JList xs) = (xs \<noteq> [])"
| "truthy (JObj kvs) = (kvs \<noteq> [])"

text \<open>\<^verbatim>\<open>d.get(key, default)\<close>: only a dictionary has the method; on any other value
  Python raises AttributeError.\<close>

fun dict_get :: "json \<Rightarrow> string \<Rightarrow> json \<Rightarrow> py_error + json" where
  "dict_get (JObj kvs) k d = Inr (case map_of kvs k of Some v \<Rightarrow> v | None \<Rightarrow> d)"
| "dict_get _ k d = Inl AttributeError"

text \<open>\<^verbatim>\<open>value == s\<close> for a string \<^verbatim>\<open>s\<close>: no value of another type equals a string.\<close>

fun eq_str :: "json \<Rightarrow> string \<Rightarrow> bool" where
  "eq_str (JStr s) t = (s = t)"
| "eq_str _ t = False"

text \<open>\<^verbatim>\<open>for tx in value\<close>: a list yields its elements, a string its characters, a
  dictionary its keys; nothing else is iterable.\<close>

fun py_iter :: "json \<Rightarrow> py_error + json list" where
  "py_iter (JList xs) = Inr xs"
| "py_iter (JStr s) = Inr (map (\<lambda>c. JStr [c]) s)"
| "py_iter (JObj kvs) = Inr (map (\<lambda>kv. JStr (fst kv)) kvs)"
| "py_iter _ = Inl TypeError"

subsection \<open>The built-in \<^verbatim>\<open>int\<close>\<close>

definition is_space :: "char \<Rightarrow> bool" where
  "is_space c =
     (c \<in> set [CHR '' '', CHR 0x09, CHR 0x0A, CHR 0x0B, CHR 0x0C, CHR 0x0D,
                CHR 0x1C, CHR 0x1D, CHR 0x1E, CHR 0x1F])"

definition digit_val :: "char \<Rightarrow> nat option" where
  "digit_val c =
     map_of [(CHR ''0'', 0), (CHR ''1'', 1), (CHR ''2'', 2), (CHR ''3'', 3), (CHR ''4'', 4),
             (CHR ''5'', 5), (CHR ''6'', 6), (CHR ''7'', 7), (CHR ''8'', 8), (CHR ''9'', 9)] c"

text \<open>Decimal digits, a single underscore allowed between two digits. The flag says
  whether the previous character was a digit.\<close>

fun parse_digits :: "nat \<Rightarrow> bool \<Rightarrow> string \<Rightarrow> nat option" where
  "parse_digits acc prev [] = (if prev then Some acc else None)"
| "parse_digits acc prev (c # cs) =
     (case digit_val c of
        Some d \<Rightarrow> parse_digits (10 * acc + d) True cs
      | None \<Rightarrow> if c = CHR ''_'' \<and> prev then parse_digits acc False cs else None)"

definition strip :: "string \<Rightarrow> string" where
  "strip s = rev (dropWhile is_space (rev (dropWhile is_space s)))"

definition int_of_string :: "string \<Rightarrow> int option" where
  "int_of_string s =
     (case strip s of
        [] \<Rightarrow> None
      | c # cs \<Rightarrow>
          if c = CHR ''-'' then map_option (\<lambda>n. - int n) (parse_digits 0 False cs)
          else if c = CHR ''+'' then map_option int (parse_digits 0 False cs)
          else map_option int (parse_digits 0 False (c # cs)))"

text \<open>\<^verbatim>\<open>int(value)\<close>: a float is truncated towards zero, a bool is 0 or 1, a string is
  parsed (ValueError when it is no integer literal), anything else is a TypeError.\<close>

fun py_int :: "json \<Rightarrow> py_error + int" where
  "py_int (JInt i) = Inr i"
| "py_int (JBool b) = Inr (if b then 1 else 0)"
| "py_int (JFloat r) = Inr (if 0 \<le> r then \<lfloor>r\<rfloor> else \<lceil>r\<rceil>)"
| "py_int (JStr s) = (case int_of_string s of Some i \<Rightarrow> Inr i | None \<Rightarrow> Inl ValueError)"
| "py_int _ = Inl TypeError"

section \<open>\<^verbatim>\<open>ton_payments.py\<close>: the ledger client and the payment matcher\<close>

subsection \<open>Normalisation helpers\<close>

text \<open>Each helper wraps its body in \<^verbatim>\<open>try ... except Exception\<close> and returns a default
  from the handler; the \<open>Inl\<close> branches below are those handlers.\<close>

definition is_incoming_transaction :: "string \<Rightarrow> json \<Rightarrow> bool" where
  "is_incoming_transaction wallet_address tx =
     (case dict_get tx ''in_msg'' (JObj []) of
        Inl e \<Rightarrow> False
      | Inr in_msg \<Rightarrow>
          if \<not> truthy in_msg then False
          else (case dict_get in_msg ''destination'' JNull of
                  Inl e \<Rightarrow> False
                | Inr destination \<Rightarrow> eq_str destination wallet_address))"

definition get_transaction_amount :: "json \<Rightarrow> rat" where
  "get_transaction_amount tx =
     (case dict_get tx ''in_msg'' (JObj []) of
        Inl e \<Rightarrow> 0
      | Inr in_msg \<Rightarrow>
          (case dict_get in_msg ''value'' (JStr ''0'') of
             Inl e \<Rightarrow> 0
           | Inr v \<Rightarrow>
               (case py_int v of
                  Inl e \<Rightarrow> 0
                | Inr val \<Rightarrow> of_int val / 1000000000)))"

definition get_transaction_comment :: "json \<Rightarrow> json" where
  "get_transaction_comment tx =
     (case dict_get tx ''in_msg'' (JObj []) of
        Inl e \<Rightarrow> JStr ''''
      | Inr in_msg \<Rightarrow>
          (case dict_get in_msg ''msg_data'' (JObj []) of
             Inl e \<Rightarrow> JStr ''''
           | Inr msg_data \<Rightarrow>
               (case dict_get msg_data ''@type'' JNull of
                  Inl e \<Rightarrow> JStr ''''
                | Inr ty \<Rightarrow>
                    (case (if eq_str ty ''msg.dataText''
                           then dict_get msg_data ''text'' (JStr '''')
                           else Inr JNull) of
                       Inl e \<Rightarrow> JStr ''''
                     | Inr text \<Rightarrow>
                         if eq_str ty ''msg.dataText'' \<and> truthy text then text
                         else (case dict_get in_msg ''message'' (JStr '''') of
                                 Inl e \<Rightarrow> JStr ''''
                               | Inr body \<Rightarrow> if truthy body then body else JStr '''')))))"

text \<open>\<^verbatim>\<open>tx.get('transaction_id', {}).get('hash', '')\<close>, written inline in
  \<^verbatim>\<open>verify_payment\<close> with no handler of its own.\<close>

definition transaction_hash :: "json \<Rightarrow> py_error + json" where
  "transaction_hash tx =
     (case dict_get tx ''transaction_id'' (JObj []) of
        Inl e \<Rightarrow> Inl e
      | Inr tid \<Rightarrow> dict_get tid ''hash'' (JStr ''''))"

subsection \<open>One fetch\<close>

text \<open>What one HTTP request can come back with: an exception of the client (network
  error), or a status with a body that parsed to JSON or did not.\<close>

datatype response = NetworkError | HttpResponse int "json option"

definition get_transaction_history :: "response \<Rightarrow> json" where
  "get_transaction_history r =
     (case r of
        NetworkError \<Rightarrow> JList []
      | HttpResponse status body \<Rightarrow>
          if status = 200 then
            (case body of
               None \<Rightarrow> JList []
             | Some data \<Rightarrow>
                 (case dict_get data ''ok'' JNull of
                    Inl e \<Rightarrow> JList []
                  | Inr ok \<Rightarrow>
                      if truthy ok then
                        (case dict_get data ''result'' (JList []) of
                           Inl e \<Rightarrow> JList []
                         | Inr res \<Rightarrow> res)
                      else JList []))
          else JList [])"

subsection \<open>The matcher\<close>

text \<open>The condition of the \<^verbatim>\<open>if\<close> in the loop over the fetched transactions.\<close>

definition amount_and_comment_match :: "rat \<Rightarrow> string \<Rightarrow> json \<Rightarrow> bool" where
  "amount_and_comment_match expected_amount comment tx =
     (\<bar>get_transaction_amount tx - expected_amount\<bar> < 1 / 1000
      \<and> eq_str (get_transaction_comment tx) comment)"

text \<open>The \<^verbatim>\<open>for tx in transactions\<close> loop: \<open>Inr (Some h)\<close> is the early
  \<^verbatim>\<open>return True, tx_hash\<close>, \<open>Inr None\<close> the end of the list, \<open>Inl e\<close> an exception
  leaving the loop.\<close>

fun scan_transactions :: "string \<Rightarrow> rat \<Rightarrow> string \<Rightarrow> json list \<Rightarrow> py_error + json option" where
  "scan_transactions wallet_address expected_amount comment [] = Inr None"
| "scan_transactions wallet_address expected_amount comment (tx # txs) =
     (if \<not> is_incoming_transaction wallet_address tx
      then scan_transactions wallet_address expected_amount comment txs
      else (case transaction_hash tx of
              Inl e \<Rightarrow> Inl e
            | Inr tx_hash \<Rightarrow>
                if amount_and_comment_match expected_amount comment tx then Inr (Some tx_hash)
                else scan_transactions wallet_address expected_amount comment txs))"

text \<open>The body of the \<^verbatim>\<open>try\<close> of one round, up to the sleep.\<close>

definition poll_round :: "string \<Rightarrow> response \<Rightarrow> rat \<Rightarrow> string \<Rightarrow> py_error + json option" where
  "poll_round wallet_address r expected_amount comment =
     (case py_iter (get_transaction_history r) of
        Inl e \<Rightarrow> Inl e
      | Inr transactions \<Rightarrow> scan_transactions wallet_address expected_amount comment transactions)"

definition check_interval :: nat where
  "check_interval = 10"

text \<open>
  The \<^verbatim>\<open>while\<close> loop. The clock is read in whole seconds since \<^verbatim>\<open>start_time\<close>;
  \<open>fetch t\<close> is the answer to the request issued at \<open>t\<close> and \<open>latency t\<close> the time
  that request took. A round without a match, and a round ended by an exception, both
  sleep \<open>check_interval\<close> seconds and go round again.
\<close>

function verify_loop ::
  "string \<Rightarrow> (nat \<Rightarrow> response) \<Rightarrow> (nat \<Rightarrow> nat) \<Rightarrow> rat \<Rightarrow> string \<Rightarrow> int \<Rightarrow> nat \<Rightarrow> bool \<times> json option"
where
  "verify_loop wallet_address fetch latency expected_amount comment timeout elapsed =
     (if int elapsed < timeout then
        (case poll_round wallet_address (fetch elapsed) expected_amount comment of
           Inr (Some tx_hash) \<Rightarrow> (True, Some tx_hash)
         | Inr None \<Rightarrow>
             verify_loop wallet_address fetch latency expected_amount comment timeout
               (elapsed + latency elapsed + check_interval)
         | Inl e \<Rightarrow>
             verify_loop wallet_address fetch latency expected_amount comment timeout
               (elapsed + latency elapsed + check_interval))
      else (False, None))"
  by pat_completeness auto
termination
  by (relation "measure (\<lambda>(w, f, l, a, c, timeout, elapsed). nat (timeout - int elapsed))")
     (auto simp: check_interval_def)

declare verify_loop.simps [simp del]

definition verify_payment ::
  "string \<Rightarrow> (nat \<Rightarrow> response) \<Rightarrow> (nat \<Rightarrow> nat) \<Rightarrow> rat \<Rightarrow> string \<Rightarrow> int \<Rightarrow> bool \<times> json option"
where
  "verify_payment wallet_address fetch latency expected_amount comment timeout =
     verify_loop wallet_address fetch latency expected_amount comment timeout 0"



text \<open>A transaction with no decodable comment: the decoder is left with its empty
  default.\<close>

definition memo_absent :: "json \<Rightarrow> bool" where
  "memo_absent tx = (get_transaction_comment tx = JStr '''')"

subsection \<open>Sample ledger data\<close>

definition sample_wallet :: string where
  "sample_wallet = ''UQ_STORE_WALLET''"

definition ledger_tx :: "json \<Rightarrow> (string \<times> json) list \<Rightarrow> json \<Rightarrow> json" where
  "ledger_tx nano_value memo_fields tid =
     JObj [(''in_msg'',
              JObj ([(''destination'', JStr sample_wallet), (''value'', nano_value)] @ memo_fields)),
           (''transaction_id'', tid)]"

definition text_memo :: "string \<Rightarrow> (string \<times> json) list" where
  "text_memo m = [(''msg_data'', JObj [(''@type'', JStr ''msg.dataText''), (''text'', JStr m)])]"

definition paying_tx :: json where
  "paying_tx = ledger_tx (JStr ''80000000000'') (text_memo ''ORDER_42_7'')
                 (JObj [(''hash'', JStr ''h-paying'')])"

definition other_memo_tx :: json where
  "other_memo_tx = ledger_tx (JStr ''80000000000'') (text_memo ''ORDER_42_8'')
                     (JObj [(''hash'', JStr ''h-other'')])"

definition no_memo_tx :: json where
  "no_memo_tx = ledger_tx (JStr ''80000000000'') [] (JObj [(''hash'', JStr ''h-bare'')])"

definition bad_id_tx :: json where
  "bad_id_tx = ledger_tx (JStr ''1000000000'') [] JNull"

definition ok_response :: "json list \<Rightarrow> response" where
  "ok_response txs = HttpResponse 200 (Some (JObj [(''ok'', JBool True), (''result'', JList txs)]))"

text \<open>A ledger that answers every request with the same batch, at once.\<close>

definition steady_ledger :: "json list \<Rightarrow> nat \<Rightarrow> response" where
  "steady_ledger txs t = ok_response txs"

definition no_latency :: "nat \<Rightarrow> nat" where
  "no_latency t = 0"


section \<open>Discount codes\<close>

subsection \<open>\<^verbatim>\<open>utils.py\<close>\<close>

definition calculate_discount :: "rat \<Rightarrow> string \<Rightarrow> rat \<Rightarrow> rat" where
  "calculate_discount total_amount discount_type discount_value =
     (let discount = (if discount_type = ''percentage''
                      then total_amount * (discount_value / 100)
                      else discount_value)
      in min discount total_amount)"

subsection \<open>\<^verbatim>\<open>str.upper\<close> and \<^verbatim>\<open>str(int)\<close>\<close>

definition upper_char :: "char \<Rightarrow> char" where
  "upper_char c =
     (case map_of (zip ''abcdefghijklmnopqrstuvwxyz'' ''ABCDEFGHIJKLMNOPQRSTUVWXYZ'') c of
        Some u \<Rightarrow> u
      | None \<Rightarrow> c)"

definition upper :: "string \<Rightarrow> string" where
  "upper s = map upper_char s"

definition digit_char :: "nat \<Rightarrow> char" where
  "digit_char d = ''0123456789'' ! d"

fun str_nat :: "nat \<Rightarrow> string" where
  "str_nat n = (if n < 10 then [digit_char n] else str_nat (n div 10) @ [digit_char (n mod 10)])"

declare str_nat.simps [simp del]

definition str_int :: "int \<Rightarrow> string" where
  "str_int i = (if i < 0 then CHR ''-'' # str_nat (nat (- i)) else str_nat (nat i))"

subsection \<open>The tables of \<^verbatim>\<open>database_1753438860626.py\<close>\<close>

text \<open>
  One record per table row, one field per column the payment and discount code reads or
  writes (display columns and timestamps are left out). A column of a row is prefixed
  with the table it belongs to. The status column carries the CHECK constraint of the
  schema, so it is an enumeration.
\<close>

record discount_row =
  dc_id :: int
  dc_code :: string
  dc_discount_type :: string
  dc_discount_value :: rat
  dc_usage_limit :: "int option"
  dc_used_count :: int
  dc_expiry_date :: "string option"
  dc_active :: bool

record product_row =
  p_price :: rat
  p_stock_quantity :: int
  p_active :: bool

record cart_item =
  ci_product_id :: int
  ci_name :: string
  ci_price :: rat
  ci_quantity :: int
  ci_total_price :: rat

datatype order_status = Pending | Paid | Shipped | Delivered | Cancelled

record order_row =
  o_user_id :: int
  o_products :: "cart_item list"
  o_total_amount :: rat
  o_discount_code :: "string option"
  o_discount_amount :: rat
  o_final_amount :: rat
  o_status :: order_status
  o_payment_hash :: "json option"

text \<open>The dictionary kept in \<^verbatim>\<open>user_sessions.data\<close>, by the keys the checkout handlers
  use; \<open>None\<close> is a missing key.\<close>

record session_data =
  sd_order_id :: "int option"
  sd_amount :: "rat option"
  sd_comment :: "string option"
  sd_discount_code :: "string option"
  sd_discount_amount :: "rat option"

definition empty_session_data :: session_data where
  "empty_session_data =
     \<lparr>sd_order_id = None, sd_amount = None, sd_comment = None, sd_discount_code = None,
      sd_discount_amount = None\<rparr>"

text \<open>
  \<open>cart_data\<close> is the column of the \<^verbatim>\<open>users\<close> table (\<open>None\<close>: the user has no row);
  \<open>orders_last_id\<close> is the AUTOINCREMENT counter of \<^verbatim>\<open>orders\<close>; \<open>discount_usage\<close> holds
  the rows (code id, user id, order id) in insertion order.
\<close>

record database =
  products_table :: "int \<rightharpoonup> product_row"
  cart_data :: "int \<rightharpoonup> cart_item list"
  orders_table :: "int \<rightharpoonup> order_row"
  orders_last_id :: int
  discount_codes :: "discount_row list"
  discount_usage :: "(int \<times> int \<times> int) list"
  user_sessions :: "int \<rightharpoonup> string \<times> session_data"

subsection \<open>\<^verbatim>\<open>Database\<close>: discount codes\<close>

definition get_discount_code :: "database \<Rightarrow> string \<Rightarrow> discount_row option" where
  "get_discount_code db code = find (\<lambda>d. dc_code d = code \<and> dc_active d) (discount_codes db)"

definition usage_count :: "database \<Rightarrow> int \<Rightarrow> int \<Rightarrow> nat" where
  "usage_count db code_id user_id =
     length (filter (\<lambda>(c, u, order_id). c = code_id \<and> u = user_id) (discount_usage db))"

text \<open>\<open>fromisoformat\<close> is \<^verbatim>\<open>datetime.fromisoformat\<close> read as a timestamp (\<open>None\<close>: it
  raises ValueError); \<open>now\<close> is \<^verbatim>\<open>datetime.now()\<close>.\<close>

definition expiry_passed ::
  "(string \<Rightarrow> int option) \<Rightarrow> int \<Rightarrow> string option \<Rightarrow> py_error + bool" where
  "expiry_passed fromisoformat now expiry_date =
     (case expiry_date of
        None \<Rightarrow> Inr False
      | Some s \<Rightarrow>
          if s = [] then Inr False
          else (case fromisoformat s of
                  None \<Rightarrow> Inl ValueError
                | Some expiry \<Rightarrow> Inr (now > expiry)))"

definition limit_reached :: "discount_row \<Rightarrow> bool" where
  "limit_reached discount =
     (case dc_usage_limit discount of
        None \<Rightarrow> False
      | Some limit \<Rightarrow> limit \<noteq> 0 \<and> dc_used_count discount \<ge> limit)"

definition validate_discount_code ::
  "(string \<Rightarrow> int option) \<Rightarrow> int \<Rightarrow> database \<Rightarrow> string \<Rightarrow> int
     \<Rightarrow> py_error + (bool \<times> string \<times> discount_row option)" where
  "validate_discount_code fromisoformat now db code user_id =
     (case get_discount_code db code of
        None \<Rightarrow> Inr (False, ''Discount code not found or inactive'', None)
      | Some discount \<Rightarrow>
          (case expiry_passed fromisoformat now (dc_expiry_date discount) of
             Inl e \<Rightarrow> Inl e
           | Inr expired \<Rightarrow>
               if expired then Inr (False, ''Discount code has expired'', None)
               else if limit_reached discount
                 then Inr (False, ''Discount code usage limit reached'', None)
               else if usage_count db (dc_id discount) user_id > 0
                 then Inr (False, ''You have already used this discount code'', None)
               else Inr (True, ''Valid discount code'', Some discount)))"

definition use_discount_code :: "database \<Rightarrow> int \<Rightarrow> int \<Rightarrow> int \<Rightarrow> database" where
  "use_discount_code db code_id user_id order_id =
     db\<lparr>discount_usage := discount_usage db @ [(code_id, user_id, order_id)],
        discount_codes :=
          map (\<lambda>d. if dc_id d = code_id then d\<lparr>dc_used_count := dc_used_count d + 1\<rparr> else d)
            (discount_codes db)\<rparr>"

definition toggle_discount_code :: "database \<Rightarrow> int \<Rightarrow> database" where
  "toggle_discount_code db code_id =
     db\<lparr>discount_codes :=
          map (\<lambda>d. if dc_id d = code_id then d\<lparr>dc_active := \<not> dc_active d\<rparr> else d)
            (discount_codes db)\<rparr>"

subsection \<open>\<^verbatim>\<open>discount_manager_1753438860741.py\<close>\<close>

text \<open>The success message renders the amount; the model keeps its fixed part. An
  exception anywhere in the body is caught and reported as a failure.\<close>

definition apply_discount ::
  "(string \<Rightarrow> int option) \<Rightarrow> int \<Rightarrow> database \<Rightarrow> string \<Rightarrow> int \<Rightarrow> rat \<Rightarrow> bool \<times> string \<times> rat" where
  "apply_discount fromisoformat now db code user_id total_amount =
     (case validate_discount_code fromisoformat now db (upper code) user_id of
        Inl e \<Rightarrow> (False, ''Error applying discount code'', 0)
      | Inr (is_valid, message, discount) \<Rightarrow>
          if \<not> is_valid then (False, message, 0)
          else (case discount of
                  None \<Rightarrow> (False, ''Error applying discount code'', 0)
                | Some d \<Rightarrow>
                    (let discount_amount =
                           (if dc_discount_type d = ''percentage''
                            then total_amount * (dc_discount_value d / 100)
                            else min (dc_discount_value d) total_amount);
                         discount_amount = min discount_amount total_amount
                     in (True, ''Applied'', discount_amount))))"

definition get_discount_info :: "database \<Rightarrow> string \<Rightarrow> discount_row option" where
  "get_discount_info db code = get_discount_code db (upper code)"

subsection \<open>\<^verbatim>\<open>discount_manager.py\<close>\<close>

text \<open>
  The other \<^verbatim>\<open>DiscountManager\<close>: it looks a code up in the \<^verbatim>\<open>discount_codes\<close> table of
  \<^verbatim>\<open>database.py\<close> (any row with that code, active or not), takes no user and consults
  no usage ledger. The rows have the columns of \<open>discount_row\<close>, the expiry under the
  name \<^verbatim>\<open>expires_at\<close>. The success message keeps its fixed part.
\<close>

definition manager_validate_discount_code ::
  "(string \<Rightarrow> int option) \<Rightarrow> int \<Rightarrow> discount_row list \<Rightarrow> string \<Rightarrow> rat \<Rightarrow> bool \<times> string \<times> rat" where
  "manager_validate_discount_code fromisoformat now table code total_amount =
     (if code = [] \<or> strip code = [] then (False, ''Please enter a discount code'', 0)
      else
        (case find (\<lambda>d. dc_code d = strip (upper code)) table of
           None \<Rightarrow> (False, ''Invalid discount code'', 0)
         | Some discount \<Rightarrow>
             if \<not> dc_active discount then (False, ''Discount code is no longer active'', 0)
             else
               (case expiry_passed fromisoformat now (dc_expiry_date discount) of
                  Inl e \<Rightarrow> (False, ''Error validating discount code'', 0)
                | Inr expired \<Rightarrow>
                    if expired then (False, ''Discount code has expired'', 0)
                    else if limit_reached discount
                      then (False, ''Discount code has reached its usage limit'', 0)
                    else
                      (let discount_amount =
                             calculate_discount total_amount (dc_discount_type discount)
                               (dc_discount_value discount)
                       in if discount_amount = 0
                          then (False, ''Discount code cannot be applied to this order'', 0)
                          else (True, ''Discount applied'', discount_amount)))))"

section \<open>Orders, carts and sessions\<close>

subsection \<open>\<^verbatim>\<open>Database\<close> of \<^verbatim>\<open>database_1753438860626.py\<close>\<close>

text \<open>The statements of SQL are modelled on tables that answer; a failure of the store
  itself (file, lock) is outside the model. What \<^verbatim>\<open>sqlite3\<close> raises for a parameter it
  cannot bind is kept, since the transaction hash comes from the ledger untyped.\<close>

definition get_user_cart :: "database \<Rightarrow> int \<Rightarrow> cart_item list" where
  "get_user_cart db user_id = (case cart_data db user_id of None \<Rightarrow> [] | Some cart \<Rightarrow> cart)"

definition update_user_cart :: "database \<Rightarrow> int \<Rightarrow> cart_item list \<Rightarrow> database" where
  "update_user_cart db user_id cart =
     (case cart_data db user_id of
        None \<Rightarrow> db
      | Some old \<Rightarrow> db\<lparr>cart_data := (cart_data db)(user_id \<mapsto> cart)\<rparr>)"

definition clear_user_cart :: "database \<Rightarrow> int \<Rightarrow> database" where
  "clear_user_cart db user_id = update_user_cart db user_id []"

definition get_product :: "database \<Rightarrow> int \<Rightarrow> product_row option" where
  "get_product db product_id =
     (case products_table db product_id of
        None \<Rightarrow> None
      | Some p \<Rightarrow> if p_active p then Some p else None)"

definition create_order ::
  "database \<Rightarrow> int \<Rightarrow> cart_item list \<Rightarrow> rat \<Rightarrow> string option \<Rightarrow> rat \<Rightarrow> rat option
     \<Rightarrow> database \<times> int" where
  "create_order db user_id products total_amount discount_code discount_amount final_amount =
     (let final = (case final_amount of None \<Rightarrow> total_amount - discount_amount | Some f \<Rightarrow> f);
          order_id = orders_last_id db + 1
      in (db\<lparr>orders_table := (orders_table db)(order_id \<mapsto>
                 \<lparr>o_user_id = user_id, o_products = products, o_total_amount = total_amount,
                  o_discount_code = discount_code, o_discount_amount = discount_amount,
                  o_final_amount = final, o_status = Pending, o_payment_hash = None\<rparr>),
             orders_last_id := order_id\<rparr>,
          order_id))"

definition get_order :: "database \<Rightarrow> int \<Rightarrow> order_row option" where
  "get_order db order_id = orders_table db order_id"

fun sql_bindable :: "json \<Rightarrow> bool" where
  "sql_bindable (JList xs) = False"
| "sql_bindable (JObj kvs) = False"
| "sql_bindable _ = True"

text \<open>\<^verbatim>\<open>UPDATE orders SET status = ? [, payment_hash = ?] WHERE id = ?\<close>: the hash is
  written only when it is truthy, and the row's current status is not looked at. The same
  statement is \<^verbatim>\<open>update_order_status\<close> of \<^verbatim>\<open>database.py\<close>.\<close>

definition update_order_status ::
  "database \<Rightarrow> int \<Rightarrow> order_status \<Rightarrow> json option \<Rightarrow> py_error + database" where
  "update_order_status db order_id status payment_hash =
     (case (case payment_hash of None \<Rightarrow> None | Some h \<Rightarrow> if truthy h then Some h else None) of
        Some h \<Rightarrow>
          if \<not> sql_bindable h then Inl InterfaceError
          else Inr (case orders_table db order_id of
                      None \<Rightarrow> db
                    | Some row \<Rightarrow>
                        db\<lparr>orders_table := (orders_table db)(order_id \<mapsto>
                              row\<lparr>o_status := status, o_payment_hash := Some h\<rparr>)\<rparr>)
      | None \<Rightarrow>
          Inr (case orders_table db order_id of
                 None \<Rightarrow> db
               | Some row \<Rightarrow>
                   db\<lparr>orders_table := (orders_table db)(order_id \<mapsto> row\<lparr>o_status := status\<rparr>)\<rparr>))"

definition set_user_state :: "database \<Rightarrow> int \<Rightarrow> string \<Rightarrow> session_data \<Rightarrow> database" where
  "set_user_state db user_id state data =
     db\<lparr>user_sessions := (user_sessions db)(user_id \<mapsto> (state, data))\<rparr>"

definition get_user_state :: "database \<Rightarrow> int \<Rightarrow> string option \<times> session_data" where
  "get_user_state db user_id =
     (case user_sessions db user_id of
        None \<Rightarrow> (None, empty_session_data)
      | Some (state, data) \<Rightarrow> (Some state, data))"

definition clear_user_state :: "database \<Rightarrow> int \<Rightarrow> database" where
  "clear_user_state db user_id = db\<lparr>user_sessions := (user_sessions db)(user_id := None)\<rparr>"

subsection \<open>\<^verbatim>\<open>CartManager\<close> of \<^verbatim>\<open>cart_manager_1753438860467.py\<close>\<close>

definition get_cart_summary :: "database \<Rightarrow> int \<Rightarrow> cart_item list \<times> int \<times> rat \<times> bool" where
  "get_cart_summary db user_id =
     (let cart = get_user_cart db user_id
      in if cart = [] then ([], 0, 0, True)
         else (cart, sum_list (map ci_quantity cart), sum_list (map ci_total_price cart), False))"

definition clear_cart :: "database \<Rightarrow> int \<Rightarrow> database" where
  "clear_cart db user_id = clear_user_cart db user_id"

text \<open>One turn of the loop of \<^verbatim>\<open>validate_cart\<close>: the messages it appends, the item it
  keeps (if any) and whether it set \<^verbatim>\<open>cart_modified\<close>.\<close>

definition price_check :: "product_row \<Rightarrow> cart_item \<Rightarrow> string list \<times> cart_item \<times> bool" where
  "price_check product item =
     (if \<bar>p_price product - ci_price item\<bar> > 1 / 1000
      then ([''price updated''],
            item\<lparr>ci_price := p_price product,
                 ci_total_price := of_int (ci_quantity item) * p_price product\<rparr>,
            True)
      else ([], item, False))"

definition validate_item ::
  "database \<Rightarrow> cart_item \<Rightarrow> string list \<times> cart_item option \<times> bool" where
  "validate_item db item =
     (case get_product db (ci_product_id item) of
        None \<Rightarrow> ([''no longer available''], None, True)
      | Some product \<Rightarrow>
          if \<not> p_active product then ([''discontinued''], None, True)
          else if p_stock_quantity product < ci_quantity item then
            (if p_stock_quantity product > 0 then
               (let item1 = item\<lparr>ci_quantity := p_stock_quantity product,
                                  ci_total_price := of_int (p_stock_quantity product) * ci_price item\<rparr>;
                    (errors, item2, modified) = price_check product item1
                in (''quantity reduced'' # errors, Some item2, True))
             else ([''out of stock''], None, True))
          else (let (errors, item2, modified) = price_check product item
                in (errors, Some item2, modified)))"

fun validate_items :: "database \<Rightarrow> cart_item list \<Rightarrow> string list \<times> cart_item list \<times> bool" where
  "validate_items db [] = ([], [], False)"
| "validate_items db (item # cart) =
     (let (errors1, kept, modified1) = validate_item db item;
          (errors, updated_cart, cart_modified) = validate_items db cart
      in (errors1 @ errors,
          (case kept of None \<Rightarrow> updated_cart | Some item' \<Rightarrow> item' # updated_cart),
          modified1 \<or> cart_modified))"

definition validate_cart :: "database \<Rightarrow> int \<Rightarrow> database \<times> bool \<times> string list" where
  "validate_cart db user_id =
     (let (errors, updated_cart, cart_modified) = validate_items db (get_user_cart db user_id);
          db' = (if cart_modified then update_user_cart db user_id updated_cart else db)
      in (db', errors = [], errors))"

record order_data =
  od_products :: "cart_item list"
  od_total_amount :: rat
  od_total_items :: int

definition prepare_order_data :: "database \<Rightarrow> int \<Rightarrow> database \<times> order_data option" where
  "prepare_order_data db user_id =
     (let (items, total_items, total_price, is_empty) = get_cart_summary db user_id
      in if is_empty then (db, None)
         else (let (db', is_valid, errors) = validate_cart db user_id
               in if \<not> is_valid then (db', None)
                  else (db', Some \<lparr>od_products = items, od_total_amount = total_price,
                                    od_total_items = total_items\<rparr>)))"

subsection \<open>The checkout handlers of \<^verbatim>\<open>main_1753438860935.py\<close>\<close>

text \<open>What a handler sends back. The payment message is kept by its amount and its
  comment, the confirmation by the order, the amount and the hash.\<close>

datatype reply =
    Answer string
  | Message string
  | PaymentInstructions rat string
  | PaymentConfirmed int rat "json option"

definition order_comment :: "int \<Rightarrow> int \<Rightarrow> string" where
  "order_comment order_id user_id = ''ORDER_'' @ str_int order_id @ ''_'' @ str_int user_id"

definition process_payment :: "database \<Rightarrow> int \<Rightarrow> database \<times> reply" where
  "process_payment db user_id =
     (case prepare_order_data db user_id of
        (db1, None) \<Rightarrow> (db1, Message ''Unable to process order. Please check your cart.'')
      | (db1, Some od) \<Rightarrow>
          (let (state, state_data) = get_user_state db1 user_id;
               discount_code = sd_discount_code state_data;
               discount_amount = (case sd_discount_amount state_data of None \<Rightarrow> 0 | Some a \<Rightarrow> a);
               final_amount = od_total_amount od - discount_amount;
               (db2, order_id) = create_order db1 user_id (od_products od) (od_total_amount od)
                                   discount_code discount_amount (Some final_amount);
               payment_data = \<lparr>sd_order_id = Some order_id, sd_amount = Some final_amount,
                               sd_comment = Some (order_comment order_id user_id),
                               sd_discount_code = None, sd_discount_amount = None\<rparr>;
               db3 = set_user_state db2 user_id ''WAITING_PAYMENT'' payment_data
           in (db3, PaymentInstructions final_amount (order_comment order_id user_id))))"

definition has_order_id :: "session_data \<Rightarrow> bool" where
  "has_order_id state_data = (case sd_order_id state_data of None \<Rightarrow> False | Some i \<Rightarrow> i \<noteq> 0)"

definition record_discount_usage :: "database \<Rightarrow> session_data \<Rightarrow> int \<Rightarrow> int \<Rightarrow> database" where
  "record_discount_usage db state_data user_id order_id =
     (case sd_discount_code state_data of
        None \<Rightarrow> db
      | Some code \<Rightarrow>
          if code = [] then db
          else (case get_discount_info db code of
                  None \<Rightarrow> db
                | Some discount \<Rightarrow> use_discount_code db (dc_id discount) user_id order_id))"

text \<open>\<open>Inl\<close> is an exception leaving the handler: KeyError for a session without
  \<^verbatim>\<open>amount\<close> or \<^verbatim>\<open>comment\<close>, and what \<^verbatim>\<open>sqlite3\<close> raises for a hash it cannot bind.\<close>

definition check_payment_status ::
  "string \<Rightarrow> (nat \<Rightarrow> response) \<Rightarrow> (nat \<Rightarrow> nat) \<Rightarrow> database \<Rightarrow> int \<Rightarrow> py_error + database \<times> reply"
where
  "check_payment_status wallet_address fetch latency db user_id =
     (let (state, state_data) = get_user_state db user_id
      in if state \<noteq> Some ''WAITING_PAYMENT'' \<or> \<not> has_order_id state_data
         then Inr (db, Answer ''No pending payment found'')
         else
           (case (sd_order_id state_data, sd_amount state_data, sd_comment state_data) of
              (Some order_id, Some expected_amount, Some comment) \<Rightarrow>
                (let (success, tx_hash) =
                       verify_payment wallet_address fetch latency expected_amount comment 5
                 in if success then
                      (case update_order_status db order_id Paid tx_hash of
                         Inl e \<Rightarrow> Inl e
                       | Inr db1 \<Rightarrow>
                           (let db2 = clear_cart db1 user_id;
                                db3 = clear_user_state db2 user_id;
                                db4 = record_discount_usage db3 state_data user_id order_id
                            in Inr (db4, PaymentConfirmed order_id expected_amount tx_hash)))
                    else Inr (db, Answer ''Payment not found yet. Please wait a few minutes after sending.''))
            | _ \<Rightarrow> Inl KeyError))"

definition cancel_current_order :: "database \<Rightarrow> int \<Rightarrow> py_error + database \<times> reply" where
  "cancel_current_order db user_id =
     (let (state, state_data) = get_user_state db user_id
      in if state = Some ''WAITING_PAYMENT'' \<and> has_order_id state_data then
           (case sd_order_id state_data of
              None \<Rightarrow> Inl KeyError
            | Some order_id \<Rightarrow>
                (case update_order_status db order_id Cancelled None of
                   Inl e \<Rightarrow> Inl e
                 | Inr db1 \<Rightarrow> Inr (clear_user_state db1 user_id, Answer ''Order cancelled'')))
         else Inr (db, Answer ''No pending order to cancel''))"

definition remove_discount :: "database \<Rightarrow> int \<Rightarrow> database" where
  "remove_discount db user_id =
     (case user_sessions db user_id of
        None \<Rightarrow> db
      | Some (state, state_data) \<Rightarrow>
          (case sd_discount_code state_data of
             None \<Rightarrow> db
           | Some code \<Rightarrow>
               if code = [] then db
               else set_user_state db user_id state
                      (state_data\<lparr>sd_discount_code := None, sd_discount_amount := None\<rparr>)))"

subsection \<open>\<^verbatim>\<open>AdminPanel.update_order_status\<close> of \<^verbatim>\<open>admin_panel_1753438860393.py\<close>\<close>

definition status_of_string :: "string \<Rightarrow> order_status option" where
  "status_of_string s =
     map_of [(''pending'', Pending), (''paid'', Paid), (''shipped'', Shipped),
             (''delivered'', Delivered), (''cancelled'', Cancelled)] s"

text \<open>The status must be one of the five names; the order must exist; the status the
  order has is read for the log line only. The entry written to \<^verbatim>\<open>admin_logs\<close> is left
  out.\<close>

definition admin_update_order_status ::
  "database \<Rightarrow> int \<Rightarrow> string \<Rightarrow> int \<Rightarrow> database \<times> bool \<times> string" where
  "admin_update_order_status db order_id new_status admin_id =
     (case status_of_string new_status of
        None \<Rightarrow> (db, False, ''Invalid status'')
      | Some status \<Rightarrow>
          (case get_order db order_id of
             None \<Rightarrow> (db, False, ''Order not found'')
           | Some order \<Rightarrow>
               (case update_order_status db order_id status None of
                  Inl e \<Rightarrow> (db, False, ''Failed to update order status'')
                | Inr db' \<Rightarrow>
                    (db', True,
                     ''Order #'' @ str_int order_id @ '' status updated to '' @ new_status))))"

subsection \<open>Sequences of handler calls\<close>

text \<open>
  The calls of the bot that write orders, carts or sessions. \<open>SetUserState\<close> stands for
  every other handler that stores a conversation state (discount entry, reviews, the
  admin dialogues): none of them stores \<^verbatim>\<open>WAITING_PAYMENT\<close>. \<open>UpdateUserCart\<close> stands for
  the cart handlers. An exception leaves the tables as they were, since each handler
  raises before its first write.
\<close>

datatype action =
    ProcessPayment int
  | CheckPaymentStatus int "nat \<Rightarrow> response" "nat \<Rightarrow> nat"
  | CancelCurrentOrder int
  | RemoveDiscount int
  | SetUserState int string session_data
  | ClearUserState int
  | UpdateUserCart int "cart_item list"

fun step :: "string \<Rightarrow> database \<Rightarrow> action \<Rightarrow> database" where
  "step w db (ProcessPayment u) = fst (process_payment db u)"
| "step w db (CheckPaymentStatus u fetch latency) =
     (case check_payment_status w fetch latency db u of Inl e \<Rightarrow> db | Inr (db', r) \<Rightarrow> db')"
| "step w db (CancelCurrentOrder u) =
     (case cancel_current_order db u of Inl e \<Rightarrow> db | Inr (db', r) \<Rightarrow> db')"
| "step w db (RemoveDiscount u) = remove_discount db u"
| "step w db (SetUserState u state data) =
     (if state = ''WAITING_PAYMENT'' then db else set_user_state db u state data)"
| "step w db (ClearUserState u) = clear_user_state db u"
| "step w db (UpdateUserCart u cart) = update_user_cart db u cart"

definition run :: "string \<Rightarrow> database \<Rightarrow> action list \<Rightarrow> database" where
  "run w db actions = foldl (step w) db actions"

definition order_status_of :: "database \<Rightarrow> int \<Rightarrow> order_status option" where
  "order_status_of db order_id = map_option o_status (orders_table db order_id)"

text \<open>The status of an order after a call that may have raised.\<close>

definition status_after :: "py_error + database \<Rightarrow> int \<Rightarrow> order_status option" where
  "status_after result order_id =
     (case result of Inl e \<Rightarrow> None | Inr db \<Rightarrow> order_status_of db order_id)"

text \<open>User \<open>u\<close> has a session waiting for the payment of order \<open>order_id\<close>.\<close>

definition waiting_on :: "database \<Rightarrow> int \<Rightarrow> int \<Rightarrow> bool" where
  "waiting_on db u order_id =
     (case user_sessions db u of
        None \<Rightarrow> False
      | Some (state, data) \<Rightarrow>
          state = ''WAITING_PAYMENT'' \<and> sd_order_id data = Some order_id \<and> order_id \<noteq> 0)"

text \<open>The tables as the handlers keep them: a waiting session names an order no newer
  than the counter and still pending, no two sessions wait for the same order, and no
  order is newer than the counter.\<close>

definition sessions_consistent :: "database \<Rightarrow> bool" where
  "sessions_consistent db =
     ((\<forall>u order_id. waiting_on db u order_id \<longrightarrow>
          order_id \<le> orders_last_id db \<and>
          (order_status_of db order_id = None \<or> order_status_of db order_id = Some Pending))
      \<and> (\<forall>u u' order_id. waiting_on db u order_id \<and> waiting_on db u' order_id \<longrightarrow> u = u')
      \<and> (\<forall>order_id. orders_table db order_id \<noteq> None \<longrightarrow> order_id \<le> orders_last_id db))"

subsection \<open>Predicates and sample rows used in the statements below\<close>

text \<open>The usage ledger holds a row for this code and this user.\<close>

definition used_by_user :: "database \<Rightarrow> string \<Rightarrow> int \<Rightarrow> bool" where
  "used_by_user db code user_id =
     list_ex (\<lambda>d. dc_code d = code \<and> usage_count db (dc_id d) user_id > 0) (discount_codes db)"

definition save20 :: discount_row where
  "save20 = \<lparr>dc_id = 1, dc_code = ''SAVE20'', dc_discount_type = ''fixed'', dc_discount_value = 20,
             dc_usage_limit = None, dc_used_count = 1, dc_expiry_date = None, dc_active = True\<rparr>"

definition half_price :: discount_row where
  "half_price = \<lparr>dc_id = 2, dc_code = ''HALF'', dc_discount_type = ''percentage'',
                 dc_discount_value = 50, dc_usage_limit = Some 10, dc_used_count = 0,
                 dc_expiry_date = None, dc_active = True\<rparr>"

definition empty_database :: database where
  "empty_database =
     \<lparr>products_table = Map.empty, cart_data = Map.empty, orders_table = Map.empty,
      orders_last_id = 0, discount_codes = [], discount_usage = [], user_sessions = Map.empty\<rparr>"

text \<open>User 7 has redeemed SAVE20 on order 42.\<close>

definition redeemed_db :: "discount_row \<Rightarrow> database" where
  "redeemed_db row = empty_database\<lparr>discount_codes := [row, half_price], discount_usage := [(1, 7, 42)]\<rparr>"

definition no_date :: "string \<Rightarrow> int option" where
  "no_date s = None"

text \<open>The discount as the specification words it: the percentage of the subtotal, or the
  fixed value, clamped to at most the subtotal and at least 0.\<close>

definition clamped_discount :: "rat \<Rightarrow> string \<Rightarrow> rat \<Rightarrow> rat" where
  "clamped_discount subtotal discount_type discount_value =
     max 0 (min (if discount_type = ''percentage'' then subtotal * (discount_value / 100)
                 else discount_value) subtotal)"

text \<open>The three ways a handler call changes orders and sessions: it leaves the orders
  alone and starts no wait (\<open>quiet\<close>), it opens a new pending order and makes the user
  wait for it (\<open>opens\<close>), or it gives the order a user waits for a new status and ends
  the wait (\<open>settles\<close>).\<close>

definition quiet :: "database \<Rightarrow> database \<Rightarrow> bool" where
  "quiet db db' =
     (orders_table db' = orders_table db \<and> orders_last_id db' = orders_last_id db
      \<and> (\<forall>u order_id. waiting_on db' u order_id \<longrightarrow> waiting_on db u order_id))"

definition opens :: "database \<Rightarrow> database \<Rightarrow> int \<Rightarrow> bool" where
  "opens db db' u =
     (order_status_of db' (orders_last_id db + 1) = Some Pending
      \<and> (\<forall>p. p \<noteq> orders_last_id db + 1 \<longrightarrow> orders_table db' p = orders_table db p)
      \<and> orders_last_id db' = orders_last_id db + 1
      \<and> (\<forall>v. v \<noteq> u \<longrightarrow> user_sessions db' v = user_sessions db v)
      \<and> (\<forall>order_id. waiting_on db' u order_id \<longrightarrow> order_id = orders_last_id db + 1))"

definition settles :: "database \<Rightarrow> database \<Rightarrow> int \<Rightarrow> int \<Rightarrow> order_status \<Rightarrow> bool" where
  "settles db db' u order_id st =
     (waiting_on db u order_id
      \<and> user_sessions db' = (user_sessions db)(u := None)
      \<and> orders_last_id db' = orders_last_id db
      \<and> (\<forall>p. p \<noteq> order_id \<longrightarrow> orders_table db' p = orders_table db p)
      \<and> order_status_of db' order_id
          = (if orders_table db order_id = None then None else Some st))"

subsection \<open>Sample store\<close>

text \<open>The scenario of the specification: a cart of 100, the code SAVE20 worth 20, order 42
  of user 7 waiting for 80 with the comment \<^verbatim>\<open>ORDER_42_7\<close>.\<close>

definition shirt :: cart_item where
  "shirt = \<lparr>ci_product_id = 1, ci_name = ''Shirt'', ci_price = 100, ci_quantity = 1,
            ci_total_price = 100\<rparr>"

definition order42 :: order_row where
  "order42 = \<lparr>o_user_id = 7, o_products = [shirt], o_total_amount = 100,
              o_discount_code = Some ''SAVE20'', o_discount_amount = 20, o_final_amount = 80,
              o_status = Pending, o_payment_hash = None\<rparr>"

definition waiting_session :: session_data where
  "waiting_session = \<lparr>sd_order_id = Some 42, sd_amount = Some 80, sd_comment = Some ''ORDER_42_7'',
                      sd_discount_code = Some ''SAVE20'', sd_discount_amount = Some 20\<rparr>"

definition waiting_db :: database where
  "waiting_db =
     \<lparr>products_table = [1 \<mapsto> \<lparr>p_price = 100, p_stock_quantity = 5, p_active = True\<rparr>],
      cart_data = [7 \<mapsto> [shirt]],
      orders_table = [42 \<mapsto> order42],
      orders_last_id = 42,
      discount_codes = [save20\<lparr>dc_used_count := 0\<rparr>, half_price],
      discount_usage = [],
      user_sessions = [7 \<mapsto> (''WAITING_PAYMENT'', waiting_session)]\<rparr>"

definition paid_db :: database where
  "paid_db = waiting_db\<lparr>orders_table := [42 \<mapsto> order42\<lparr>o_status := Paid\<rparr>],
                        user_sessions := Map.empty\<rparr>"

definition cart_db :: database where
  "cart_db = empty_database
     \<lparr>products_table := [1 \<mapsto> \<lparr>p_price = 100, p_stock_quantity = 5, p_active = True\<rparr>],
      cart_data := [7 \<mapsto> [shirt]]\<rparr>"

section \<open>The checkout of \<^verbatim>\<open>main.py\<close>\<close>















section \<open>Properties of the matcher\<close>


lemma scan_found:
  "scan_transactions w a c txs = Inr (Some h) \<Longrightarrow>
   \<exists>tx \<in> set txs. is_incoming_transaction w tx \<and> amount_and_comment_match a c tx
       \<and> transaction_hash tx = Inr h"
  by (induction txs) (auto split: if_splits sum.splits)

lemma verify_loop_timeout:
  "\<not> int elapsed < timeout \<Longrightarrow> verify_loop w fetch lat a c timeout elapsed = (False, None)"
  by (subst verify_loop.simps) simp

lemma verify_loop_match:
  "int elapsed < timeout \<Longrightarrow> poll_round w (fetch elapsed) a c = Inr (Some h) \<Longrightarrow>
   verify_loop w fetch lat a c timeout elapsed = (True, Some h)"
  by (subst verify_loop.simps) simp

lemma verify_loop_continue:
  "int elapsed < timeout \<Longrightarrow>
   poll_round w (fetch elapsed) a c = Inr None \<or> poll_round w (fetch elapsed) a c = Inl e \<Longrightarrow>
   verify_loop w fetch lat a c timeout elapsed =
   verify_loop w fetch lat a c timeout (elapsed + lat elapsed + check_interval)"
  by (subst verify_loop.simps) auto

lemma verify_loop_found:
  "verify_loop w fetch lat a c timeout elapsed = (True, h) \<Longrightarrow>
   \<exists>t txs tx tx_hash. int t < timeout \<and> py_iter (get_transaction_history (fetch t)) = Inr txs
      \<and> tx \<in> set txs \<and> is_incoming_transaction w tx \<and> amount_and_comment_match a c tx
      \<and> transaction_hash tx = Inr tx_hash \<and> h = Some tx_hash"
proof (induction w fetch lat a c timeout elapsed rule: verify_loop.induct)
  case (1 w fetch lat a c timeout elapsed)
  show ?case
  proof (cases "int elapsed < timeout")
    case False
    with "1.prems" show ?thesis by (simp add: verify_loop_timeout)
  next
    case True
    show ?thesis
    proof (cases "poll_round w (fetch elapsed) a c")
      case (Inl e)
      with True "1.prems"
      have "verify_loop w fetch lat a c timeout (elapsed + lat elapsed + check_interval) = (True, h)"
        using verify_loop_continue[of elapsed timeout w fetch a c e lat] by simp
      with "1.IH"(1)[OF True Inl] show ?thesis .
    next
      case (Inr r)
      show ?thesis
      proof (cases r)
        case None
        with Inr True "1.prems"
        have "verify_loop w fetch lat a c timeout (elapsed + lat elapsed + check_interval) = (True, h)"
          using verify_loop_continue[of elapsed timeout w fetch a c _ lat] by simp
        with "1.IH"(2)[OF True Inr None] show ?thesis .
      next
        case (Some tx_hash)
        with Inr True "1.prems" have h: "h = Some tx_hash" by (simp add: verify_loop_match)
        from Inr Some obtain txs
          where txs: "py_iter (get_transaction_history (fetch elapsed)) = Inr txs"
            and sc: "scan_transactions w a c txs = Inr (Some tx_hash)"
          by (auto simp: poll_round_def split: sum.splits)
        from scan_found[OF sc] txs True h show ?thesis by blast
      qed
    qed
  qed
qed

lemma verify_loop_result:
  "verify_loop w fetch lat a c timeout elapsed = (False, None)
   \<or> (\<exists>h. verify_loop w fetch lat a c timeout elapsed = (True, Some h))"
proof (induction w fetch lat a c timeout elapsed rule: verify_loop.induct)
  case (1 w fetch lat a c timeout elapsed)
  show ?case
  proof (cases "int elapsed < timeout")
    case False
    then show ?thesis by (simp add: verify_loop_timeout)
  next
    case True
    show ?thesis
    proof (cases "poll_round w (fetch elapsed) a c")
      case (Inl e)
      with True "1.IH"(1)[OF True Inl] show ?thesis
        using verify_loop_continue[of elapsed timeout w fetch a c e lat] by simp
    next
      case (Inr r)
      show ?thesis
      proof (cases r)
        case None
        with Inr True "1.IH"(2)[OF True Inr None] show ?thesis
          using verify_loop_continue[of elapsed timeout w fetch a c _ lat] by simp
      next
        case (Some tx_hash)
        with Inr True show ?thesis by (simp add: verify_loop_match)
      qed
    qed
  qed
qed


lemmas ledger_eval =
  sample_wallet_def ledger_tx_def text_memo_def paying_tx_def other_memo_tx_def no_memo_tx_def
  bad_id_tx_def ok_response_def get_transaction_history_def poll_round_def
  is_incoming_transaction_def get_transaction_amount_def get_transaction_comment_def
  transaction_hash_def amount_and_comment_match_def int_of_string_def strip_def is_space_def
  digit_val_def check_interval_def steady_ledger_def no_latency_def





text \<open>
  Claim C7, as amended. A transaction with no decodable comment is never a match for a
  non-empty expected comment: the condition of the matcher fails on it, a batch holding
  only it yields no hash, and when every fetched transaction is such, \<open>verify_payment\<close>
  times out. (For the empty expected comment the absent comment does match, as the
  counterexample shows.)
\<close>

theorem absent_memo_never_matches:
  "c \<noteq> [] \<Longrightarrow>
   (memo_absent tx \<longrightarrow>
      \<not> amount_and_comment_match a c tx \<and> scan_transactions w a c [tx] \<noteq> Inr (Some h))
   \<and> ((\<forall>t txs tx. py_iter (get_transaction_history (fetch t)) = Inr txs \<and> tx \<in> set txs
            \<longrightarrow> memo_absent tx)
        \<longrightarrow> verify_payment w fetch lat a c timeout = (False, None))"
proof -
  assume c: "c \<noteq> []"
  have nomatch: "\<not> amount_and_comment_match a c tx'" if "memo_absent tx'" for tx'
    using that c by (auto simp: memo_absent_def amount_and_comment_match_def)
  have one: "scan_transactions w a c [tx] \<noteq> Inr (Some h)" if "memo_absent tx"
    using scan_found[of w a c "[tx]" h] nomatch[OF that] by auto
  have "verify_payment w fetch lat a c timeout = (False, None)"
    if all: "\<forall>t txs tx. py_iter (get_transaction_history (fetch t)) = Inr txs \<and> tx \<in> set txs
            \<longrightarrow> memo_absent tx"
  proof -
    from verify_loop_result[of w fetch lat a c timeout 0]
    consider "verify_payment w fetch lat a c timeout = (False, None)"
      | h' where "verify_payment w fetch lat a c timeout = (True, Some h')"
      unfolding verify_payment_def by blast
    then show ?thesis
    proof cases
      case 1
      then show ?thesis .
    next
      case 2
      then obtain t txs tx' where "py_iter (get_transaction_history (fetch t)) = Inr txs"
        and "tx' \<in> set txs" and "amount_and_comment_match a c tx'"
        using verify_loop_found[of w fetch lat a c timeout 0 "Some h'"]
        unfolding verify_payment_def by blast
      with all nomatch show ?thesis by blast
    qed
  qed
  with nomatch one show ?thesis by blast
qed

theorem absent_memo_never_matches_witness:
  "''ORDER_42_7'' \<noteq> [] \<and> memo_absent no_memo_tx
   \<and> \<not> amount_and_comment_match 80 ''ORDER_42_7'' no_memo_tx
   \<and> scan_transactions sample_wallet 80 ''ORDER_42_7'' [no_memo_tx] \<noteq> Inr (Some (JStr ''h-bare''))
   \<and> verify_payment sample_wallet (steady_ledger [no_memo_tx]) no_latency 80 ''ORDER_42_7'' 5
       = (False, None)"
proof -
  have c: "''ORDER_42_7'' \<noteq> []" by simp
  have absent: "memo_absent no_memo_tx" by (simp add: memo_absent_def ledger_eval)
  have all: "\<forall>t txs tx.
      py_iter (get_transaction_history ((steady_ledger [no_memo_tx]) t)) = Inr txs \<and> tx \<in> set txs
        \<longrightarrow> memo_absent tx"
    using absent by (auto simp: steady_ledger_def ok_response_def get_transaction_history_def)
  from absent all
    absent_memo_never_matches[OF c, of no_memo_tx 80 sample_wallet "JStr ''h-bare''"
      "steady_ledger [no_memo_tx]" no_latency 5]
  show ?thesis by blast
qed

text \<open>
  Claim C7 fails as first written: for the empty expected comment, a transaction with no
  comment is reported as the match.
\<close>

theorem absent_memo_matches_empty_expected_memo:
  "memo_absent no_memo_tx
   \<and> amount_and_comment_match 80 '''' no_memo_tx
   \<and> verify_payment sample_wallet (steady_ledger [no_memo_tx]) no_latency 80 '''' 5
       = (True, Some (JStr ''h-bare''))"
proof -
  have "verify_payment sample_wallet (steady_ledger [no_memo_tx]) no_latency 80 '''' 5
       = (True, Some (JStr ''h-bare''))"
    unfolding verify_payment_def by (rule verify_loop_match) (simp_all add: ledger_eval)
  moreover have "memo_absent no_memo_tx" by (simp add: memo_absent_def ledger_eval)
  moreover have "amount_and_comment_match 80 '''' no_memo_tx" by (simp add: ledger_eval)
  ultimately show ?thesis by blast
qed



text \<open>
  The helpers are total. Without a usable \<^verbatim>\<open>in_msg\<close> a record is not incoming, has
  amount 0 and an empty comment; a \<^verbatim>\<open>value\<close> that \<^verbatim>\<open>int\<close> rejects gives amount 0.
\<close>

lemma helpers_default_without_in_msg:
  "dict_get tx ''in_msg'' (JObj []) = Inl e \<or> dict_get tx ''in_msg'' (JObj []) = Inr (JObj []) \<Longrightarrow>
   \<not> is_incoming_transaction w tx \<and> get_transaction_amount tx = 0
   \<and> get_transaction_comment tx = JStr ''''"
  by (auto simp: is_incoming_transaction_def get_transaction_amount_def
        get_transaction_comment_def int_of_string_def strip_def is_space_def digit_val_def)

lemma amount_default_on_bad_value:
  "dict_get tx ''in_msg'' (JObj []) = Inr in_msg \<Longrightarrow>
   dict_get in_msg ''value'' (JStr ''0'') = Inr v \<Longrightarrow> py_int v = Inl e \<Longrightarrow>
   get_transaction_amount tx = 0"
  by (simp add: get_transaction_amount_def)

lemma not_incoming_is_skipped:
  "\<not> is_incoming_transaction w tx \<Longrightarrow>
   scan_transactions w a c (tx # txs) = scan_transactions w a c txs"
  by simp

text \<open>
  Claim C10 (the code departs from it). The record \<open>bad_id_tx\<close> is incoming and its
  \<^verbatim>\<open>transaction_id\<close> is \<^verbatim>\<open>null\<close>. The hash lookup raises AttributeError on it, outside
  every helper; the round ends there, the paying transaction behind it in the same batch
  is never examined, and \<open>verify_payment\<close> times out although the payment is in every
  batch. Without the malformed record the same payment is found.
\<close>

theorem malformed_transaction_id_aborts_round:
  "is_incoming_transaction sample_wallet bad_id_tx
   \<and> transaction_hash bad_id_tx = Inl AttributeError
   \<and> poll_round sample_wallet (ok_response [bad_id_tx, paying_tx]) 80 ''ORDER_42_7''
       = Inl AttributeError
   \<and> verify_payment sample_wallet (steady_ledger [bad_id_tx, paying_tx]) no_latency 80
       ''ORDER_42_7'' 25 = (False, None)
   \<and> verify_payment sample_wallet (steady_ledger [paying_tx]) no_latency 80
       ''ORDER_42_7'' 25 = (True, Some (JStr ''h-paying''))"
proof -
  have inc: "is_incoming_transaction sample_wallet bad_id_tx" by (simp add: ledger_eval)
  have hash: "transaction_hash bad_id_tx = Inl AttributeError" by (simp add: ledger_eval)
  have round: "poll_round sample_wallet (ok_response [bad_id_tx, paying_tx]) 80 ''ORDER_42_7''
       = Inl AttributeError"
    by (simp add: ledger_eval)
  have step: "verify_loop sample_wallet (steady_ledger [bad_id_tx, paying_tx]) no_latency 80
       ''ORDER_42_7'' 25 t = verify_loop sample_wallet (steady_ledger [bad_id_tx, paying_tx])
       no_latency 80 ''ORDER_42_7'' 25 (t + 10)" if "int t < 25" for t
    using verify_loop_continue[OF that, of sample_wallet "steady_ledger [bad_id_tx, paying_tx]"
        80 "''ORDER_42_7''" AttributeError no_latency] round
    by (simp add: check_interval_def no_latency_def steady_ledger_def)
  have "verify_loop sample_wallet (steady_ledger [bad_id_tx, paying_tx]) no_latency 80
       ''ORDER_42_7'' 25 0 = verify_loop sample_wallet (steady_ledger [bad_id_tx, paying_tx])
       no_latency 80 ''ORDER_42_7'' 25 30"
    using step[of 0] step[of 10] step[of 20] by simp
  then have out: "verify_payment sample_wallet (steady_ledger [bad_id_tx, paying_tx]) no_latency 80
       ''ORDER_42_7'' 25 = (False, None)"
    by (simp add: verify_payment_def verify_loop_timeout)
  have good: "verify_payment sample_wallet (steady_ledger [paying_tx]) no_latency 80
       ''ORDER_42_7'' 25 = (True, Some (JStr ''h-paying''))"
    unfolding verify_payment_def by (rule verify_loop_match) (simp_all add: ledger_eval)
  from inc hash round out good show ?thesis by blast
qed

section \<open>Properties of the discount evaluator\<close>

lemma find_distinct_code:
  "distinct (map dc_code rows) \<Longrightarrow> d \<in> set rows \<Longrightarrow> find (\<lambda>x. dc_code x = dc_code d \<and> P x) rows = Some d'
   \<Longrightarrow> d' = d"
proof -
  assume dist: "distinct (map dc_code rows)" and d: "d \<in> set rows"
    and f: "find (\<lambda>x. dc_code x = dc_code d \<and> P x) rows = Some d'"
  from f have "d' \<in> set rows" "dc_code d' = dc_code d"
    by (auto simp: find_Some_iff)
  moreover from dist have "inj_on dc_code (set rows)" by (simp add: distinct_map)
  ultimately show "d' = d" using d by (auto dest: inj_onD)
qed

lemma validate_rejects_used:
  assumes used: "used_by_user db code user_id"
    and uniq: "distinct (map dc_code (discount_codes db))"
    and res: "validate_discount_code fromisoformat now db code user_id = Inr (b, m, r)"
  shows "\<not> b \<and> r = None"
proof (cases "get_discount_code db code")
  case None
  with res show ?thesis by (simp add: validate_discount_code_def)
next
  case (Some d')
  from used obtain d where d: "d \<in> set (discount_codes db)" "dc_code d = code"
    "usage_count db (dc_id d) user_id > 0"
    by (auto simp: used_by_user_def list_ex_iff)
  from Some d uniq have "d' = d"
    using find_distinct_code[of "discount_codes db" d dc_active d']
    by (simp add: get_discount_code_def)
  with Some d res show ?thesis
    by (auto simp: validate_discount_code_def split: sum.splits if_splits)
qed

lemma validate_already_used:
  assumes used: "used_by_user db code user_id"
    and uniq: "distinct (map dc_code (discount_codes db))"
    and found: "get_discount_code db code = Some d'"
    and live: "expiry_passed fromisoformat now (dc_expiry_date d') = Inr False"
    and room: "\<not> limit_reached d'"
  shows "validate_discount_code fromisoformat now db code user_id
         = Inr (False, ''You have already used this discount code'', None)"
proof -
  from used obtain d where d: "d \<in> set (discount_codes db)" "dc_code d = code"
    "usage_count db (dc_id d) user_id > 0"
    by (auto simp: used_by_user_def list_ex_iff)
  from found d uniq have "d' = d"
    using find_distinct_code[of "discount_codes db" d dc_active d']
    by (simp add: get_discount_code_def)
  with found d live room show ?thesis
    by (simp add: validate_discount_code_def)
qed

lemma usage_count_use_discount_code:
  "usage_count db c u \<le> usage_count (use_discount_code db c' u' o') c u"
  by (simp add: usage_count_def use_discount_code_def)

lemma used_by_user_use_discount_code:
  assumes "used_by_user db code user_id"
  shows "used_by_user (use_discount_code db c' u' o') code user_id"
proof -
  from assms obtain d where d: "d \<in> set (discount_codes db)" "dc_code d = code"
    "usage_count db (dc_id d) user_id > 0"
    by (auto simp: used_by_user_def list_ex_iff)
  let ?f = "\<lambda>d. if dc_id d = c' then d\<lparr>dc_used_count := dc_used_count d + 1\<rparr> else d"
  have "?f d \<in> set (discount_codes (use_discount_code db c' u' o'))"
    using d(1) by (simp add: use_discount_code_def)
  moreover have "dc_code (?f d) = code" "dc_id (?f d) = dc_id d" using d(2) by simp_all
  moreover have "usage_count (use_discount_code db c' u' o') (dc_id d) user_id > 0"
    using d(3) usage_count_use_discount_code[of db "dc_id d" user_id c' u' o'] by simp
  ultimately show ?thesis
    unfolding used_by_user_def list_ex_iff by (metis (full_types))
qed

text \<open>
  Claim C3, as amended. Once the usage ledger holds a row for a code and a user (and the
  codes of the table are distinct, as its UNIQUE constraint has it), no evaluation of the
  code for that user accepts it: \<open>validate_discount_code\<close> never answers valid and
  \<open>apply_discount\<close> never succeeds. The answer is "already used" whenever the code is
  still found active, has not expired and has not reached its limit; otherwise the earlier
  check answers. Recording further usages never removes the row.
\<close>

theorem used_code_is_rejected:
  assumes "used_by_user db code user_id"
    and "distinct (map dc_code (discount_codes db))"
  shows "(\<forall>b m r. validate_discount_code fromisoformat now db code user_id = Inr (b, m, r)
            \<longrightarrow> \<not> b \<and> r = None)
       \<and> (\<forall>d. get_discount_code db code = Some d
                \<and> expiry_passed fromisoformat now (dc_expiry_date d) = Inr False
                \<and> \<not> limit_reached d
            \<longrightarrow> validate_discount_code fromisoformat now db code user_id
                  = Inr (False, ''You have already used this discount code'', None))
       \<and> (upper code = code \<longrightarrow> \<not> fst (apply_discount fromisoformat now db code user_id total_amount))
       \<and> used_by_user (use_discount_code db code_id' user_id' order_id') code user_id"
proof -
  have a: "\<forall>b m r. validate_discount_code fromisoformat now db code user_id = Inr (b, m, r)
            \<longrightarrow> \<not> b \<and> r = None"
    using validate_rejects_used[OF assms] by blast
  have b: "\<forall>d. get_discount_code db code = Some d
                \<and> expiry_passed fromisoformat now (dc_expiry_date d) = Inr False
                \<and> \<not> limit_reached d
            \<longrightarrow> validate_discount_code fromisoformat now db code user_id
                  = Inr (False, ''You have already used this discount code'', None)"
    using validate_already_used[OF assms] by blast
  have c: "\<not> fst (apply_discount fromisoformat now db code user_id total_amount)"
    if "upper code = code"
    using a that by (auto simp: apply_discount_def Let_def split: sum.splits option.splits)
  from a b c used_by_user_use_discount_code[OF assms(1)] show ?thesis by blast
qed

lemmas discount_eval =
  save20_def half_price_def empty_database_def redeemed_db_def no_date_def used_by_user_def
  usage_count_def get_discount_code_def validate_discount_code_def expiry_passed_def
  limit_reached_def

theorem used_code_is_rejected_witness:
  "used_by_user (redeemed_db save20) ''SAVE20'' 7
   \<and> validate_discount_code no_date 0 (redeemed_db save20) ''SAVE20'' 7
       = Inr (False, ''You have already used this discount code'', None)
   \<and> \<not> fst (apply_discount no_date 0 (redeemed_db save20) ''SAVE20'' 7 100)
   \<and> used_by_user (use_discount_code (redeemed_db save20) 2 8 43) ''SAVE20'' 7"
proof -
  have used: "used_by_user (redeemed_db save20) ''SAVE20'' 7" by (simp add: discount_eval)
  have uniq: "distinct (map dc_code (discount_codes (redeemed_db save20)))"
    by (simp add: discount_eval)
  have found: "get_discount_code (redeemed_db save20) ''SAVE20'' = Some save20"
    and live: "expiry_passed no_date 0 (dc_expiry_date save20) = Inr False"
    and room: "\<not> limit_reached save20"
    by (simp_all add: discount_eval)
  have up: "upper ''SAVE20'' = ''SAVE20''" by (simp add: upper_def upper_char_def)
  from used found live room up
    used_code_is_rejected[OF used uniq, of no_date 0 100 2 8 43]
  show ?thesis by blast
qed

text \<open>
  Claim C3 fails as first written: a code the user has redeemed and that was then
  deactivated, or whose limit was then reached, is rejected by the earlier check, with
  that check's message.
\<close>

theorem used_code_rejected_by_an_earlier_check:
  "used_by_user (toggle_discount_code (redeemed_db save20) 1) ''SAVE20'' 7
   \<and> validate_discount_code no_date 0 (toggle_discount_code (redeemed_db save20) 1) ''SAVE20'' 7
       = Inr (False, ''Discount code not found or inactive'', None)
   \<and> used_by_user (redeemed_db (save20\<lparr>dc_usage_limit := Some 5, dc_used_count := 5\<rparr>)) ''SAVE20'' 7
   \<and> validate_discount_code no_date 0
        (redeemed_db (save20\<lparr>dc_usage_limit := Some 5, dc_used_count := 5\<rparr>)) ''SAVE20'' 7
       = Inr (False, ''Discount code usage limit reached'', None)"
  by (simp add: toggle_discount_code_def discount_eval)

lemma clamp_eq:
  fixes x subtotal :: rat
  shows "0 \<le> subtotal \<Longrightarrow> 0 \<le> x \<Longrightarrow> min x subtotal = max 0 (min x subtotal)"
  by (simp add: max_def min_def)

lemma percentage_nonneg:
  fixes subtotal v :: rat
  shows "0 \<le> subtotal \<Longrightarrow> 0 < v \<Longrightarrow> 0 \<le> subtotal * (v / 100)"
  by simp

lemma percentage_le:
  fixes subtotal v :: rat
  assumes "0 \<le> subtotal" "v \<le> 100"
  shows "subtotal * (v / 100) \<le> subtotal"
proof -
  have "v / 100 \<le> 1" using assms(2) by simp
  then have "subtotal * (v / 100) \<le> subtotal * 1" using assms(1) by (rule mult_left_mono)
  then show ?thesis by simp
qed

lemma calculate_discount_clamped:
  "0 \<le> subtotal \<Longrightarrow> 0 < v \<Longrightarrow> calculate_discount subtotal ty v = clamped_discount subtotal ty v"
  using clamp_eq[of subtotal "subtotal * (v / 100)"] clamp_eq[of subtotal v] percentage_nonneg[of subtotal v]
  by (simp add: calculate_discount_def clamped_discount_def Let_def)

lemma clamped_discount_range:
  "0 \<le> subtotal \<Longrightarrow> 0 \<le> clamped_discount subtotal ty v \<and> clamped_discount subtotal ty v \<le> subtotal"
  by (simp add: clamped_discount_def)

lemma apply_discount_amount:
  assumes "apply_discount fromisoformat now db code user_id subtotal = (True, m, amt)"
  shows "\<exists>d. get_discount_code db (upper code) = Some d \<and>
             amt = min (if dc_discount_type d = ''percentage''
                        then subtotal * (dc_discount_value d / 100)
                        else dc_discount_value d) subtotal"
  using assms
  by (auto simp: apply_discount_def validate_discount_code_def Let_def
           split: sum.splits option.splits if_splits)

lemma manager_amount:
  assumes "manager_validate_discount_code fromisoformat now table code subtotal = (True, m, amt)"
  shows "\<exists>d \<in> set table. amt = calculate_discount subtotal (dc_discount_type d) (dc_discount_value d)"
  using assms
  by (auto simp: manager_validate_discount_code_def Let_def find_Some_iff
           split: sum.splits option.splits if_splits)

text \<open>
  Claim C4. For a subtotal that is not negative and a code whose value is positive (the
  creation checks and the schema admit no other), the discount is the percentage of the
  subtotal, or the fixed value, clamped between 0 and the subtotal, so it never exceeds
  the subtotal and the final amount is not negative; a percentage of at most 100 is not
  clamped at all. This holds for \<open>calculate_discount\<close>, for every amount the first
  \<^verbatim>\<open>DiscountManager\<close> returns with it, and for every amount \<open>apply_discount\<close> returns.
\<close>

theorem discount_amount_clamped:
  assumes "0 \<le> subtotal"
  shows "(0 < v \<longrightarrow>
            calculate_discount subtotal ty v = clamped_discount subtotal ty v
          \<and> 0 \<le> calculate_discount subtotal ty v
          \<and> calculate_discount subtotal ty v \<le> subtotal
          \<and> 0 \<le> subtotal - calculate_discount subtotal ty v)
       \<and> (0 < v \<and> v \<le> 100 \<longrightarrow> calculate_discount subtotal ''percentage'' v = subtotal * (v / 100))
       \<and> (0 < v \<longrightarrow> calculate_discount subtotal ''fixed'' v = min v subtotal)
       \<and> (manager_validate_discount_code fromisoformat now table code subtotal = (True, m, amt) \<longrightarrow>
            (\<exists>d \<in> set table.
               (0 < dc_discount_value d \<longrightarrow>
                  amt = clamped_discount subtotal (dc_discount_type d) (dc_discount_value d)
                  \<and> 0 \<le> amt \<and> amt \<le> subtotal \<and> 0 \<le> subtotal - amt)))
       \<and> (apply_discount fromisoformat now db code user_id subtotal = (True, m', amt') \<longrightarrow>
            (\<exists>d. get_discount_code db (upper code) = Some d \<and>
               (0 < dc_discount_value d \<longrightarrow>
                  amt' = clamped_discount subtotal (dc_discount_type d) (dc_discount_value d)
                  \<and> 0 \<le> amt' \<and> amt' \<le> subtotal \<and> 0 \<le> subtotal - amt')))"
proof -
  have a: "calculate_discount subtotal ty' v' = clamped_discount subtotal ty' v'
          \<and> 0 \<le> calculate_discount subtotal ty' v'
          \<and> calculate_discount subtotal ty' v' \<le> subtotal
          \<and> 0 \<le> subtotal - calculate_discount subtotal ty' v'" if "0 < v'" for ty' v'
    using calculate_discount_clamped[OF assms that, of ty'] clamped_discount_range[OF assms, of ty' v']
    by simp
  have b: "calculate_discount subtotal ''percentage'' v = subtotal * (v / 100)"
    if "0 < v \<and> v \<le> 100"
    using percentage_le[OF assms, of v] that by (simp add: calculate_discount_def Let_def)
  have c: "calculate_discount subtotal ''fixed'' v = min v subtotal"
    by (simp add: calculate_discount_def Let_def)
  have d: "\<exists>d \<in> set table.
               (0 < dc_discount_value d \<longrightarrow>
                  amt = clamped_discount subtotal (dc_discount_type d) (dc_discount_value d)
                  \<and> 0 \<le> amt \<and> amt \<le> subtotal \<and> 0 \<le> subtotal - amt)"
    if "manager_validate_discount_code fromisoformat now table code subtotal = (True, m, amt)"
    using manager_amount[OF that] a by blast
  have e: "\<exists>d. get_discount_code db (upper code) = Some d \<and>
               (0 < dc_discount_value d \<longrightarrow>
                  amt' = clamped_discount subtotal (dc_discount_type d) (dc_discount_value d)
                  \<and> 0 \<le> amt' \<and> amt' \<le> subtotal \<and> 0 \<le> subtotal - amt')"
    if "apply_discount fromisoformat now db code user_id subtotal = (True, m', amt')"
  proof -
    from apply_discount_amount[OF that] obtain d where d: "get_discount_code db (upper code) = Some d"
      "amt' = min (if dc_discount_type d = ''percentage''
                        then subtotal * (dc_discount_value d / 100)
                        else dc_discount_value d) subtotal" by blast
    then have "amt' = calculate_discount subtotal (dc_discount_type d) (dc_discount_value d)"
      by (simp add: calculate_discount_def Let_def)
    with d(1) a clamped_discount_range[OF assms] show ?thesis by auto
  qed
  from a b c d e show ?thesis by blast
qed

theorem discount_amount_clamped_witness:
  "calculate_discount 100 ''fixed'' 20 = 20
   \<and> calculate_discount 100 ''percentage'' 50 = 50
   \<and> calculate_discount 10 ''fixed'' 20 = 10
   \<and> 0 \<le> 10 - calculate_discount 10 ''fixed'' 20
   \<and> apply_discount no_date 0 (redeemed_db save20) ''half'' 7 80 = (True, ''Applied'', 40)
   \<and> manager_validate_discount_code no_date 0 [save20] ''save20 '' 10
       = (True, ''Discount applied'', 10)"
proof -
  have app: "apply_discount no_date 0 (redeemed_db save20) ''half'' 7 80 = (True, ''Applied'', 40)"
    by (simp add: apply_discount_def upper_def upper_char_def discount_eval)
  have man: "manager_validate_discount_code no_date 0 [save20] ''save20 '' 10
       = (True, ''Discount applied'', 10)"
    by (simp add: manager_validate_discount_code_def upper_def upper_char_def discount_eval
          strip_def is_space_def calculate_discount_def)
  from app man
    discount_amount_clamped[where subtotal = 100 and v = 20 and ty = "''fixed''"]
    discount_amount_clamped[where subtotal = 100 and v = 50 and ty = "''percentage''"]
    discount_amount_clamped[where subtotal = 10 and v = 20 and ty = "''fixed''"
      and fromisoformat = no_date and now = 0 and table = "[save20]" and code = "''save20 ''"
      and m = "''Discount applied''" and amt = 10]
    discount_amount_clamped[where subtotal = 80 and fromisoformat = no_date and now = 0
      and db = "redeemed_db save20" and code = "''half''" and user_id = 7
      and m' = "''Applied''" and amt' = 40]
  show ?thesis by (simp add: clamped_discount_def)
qed

section \<open>Properties of the checkout handlers\<close>

lemma update_user_cart_frame [simp]:
  "orders_table (update_user_cart db u c) = orders_table db"
  "orders_last_id (update_user_cart db u c) = orders_last_id db"
  "user_sessions (update_user_cart db u c) = user_sessions db"
  "discount_codes (update_user_cart db u c) = discount_codes db"
  "discount_usage (update_user_cart db u c) = discount_usage db"
  by (simp_all add: update_user_cart_def split: option.splits)

lemma clear_user_state_frame [simp]:
  "orders_table (clear_user_state db u) = orders_table db"
  "orders_last_id (clear_user_state db u) = orders_last_id db"
  "cart_data (clear_user_state db u) = cart_data db"
  "discount_codes (clear_user_state db u) = discount_codes db"
  "discount_usage (clear_user_state db u) = discount_usage db"
  "user_sessions (clear_user_state db u) = (user_sessions db)(u := None)"
  by (simp_all add: clear_user_state_def)

lemma set_user_state_frame [simp]:
  "orders_table (set_user_state db u s d) = orders_table db"
  "orders_last_id (set_user_state db u s d) = orders_last_id db"
  "cart_data (set_user_state db u s d) = cart_data db"
  "user_sessions (set_user_state db u s d) = (user_sessions db)(u \<mapsto> (s, d))"
  by (simp_all add: set_user_state_def)

lemma use_discount_code_frame [simp]:
  "orders_table (use_discount_code db c u order_id) = orders_table db"
  "orders_last_id (use_discount_code db c u order_id) = orders_last_id db"
  "cart_data (use_discount_code db c u order_id) = cart_data db"
  "user_sessions (use_discount_code db c u order_id) = user_sessions db"
  "length (discount_usage (use_discount_code db c u order_id)) = length (discount_usage db) + 1"
  by (simp_all add: use_discount_code_def)

lemma record_discount_usage_frame [simp]:
  "orders_table (record_discount_usage db sd u order_id) = orders_table db"
  "orders_last_id (record_discount_usage db sd u order_id) = orders_last_id db"
  "cart_data (record_discount_usage db sd u order_id) = cart_data db"
  "user_sessions (record_discount_usage db sd u order_id) = user_sessions db"
  by (simp_all add: record_discount_usage_def split: option.splits)

lemma record_discount_usage_length:
  "length (discount_usage (record_discount_usage db sd u order_id)) \<le> length (discount_usage db) + 1"
  by (simp add: record_discount_usage_def split: option.splits)

lemma update_order_status_frame:
  assumes "update_order_status db order_id st h = Inr db'"
  shows "orders_last_id db' = orders_last_id db" "user_sessions db' = user_sessions db"
    "cart_data db' = cart_data db" "discount_codes db' = discount_codes db"
    "discount_usage db' = discount_usage db"
    "\<forall>p. p \<noteq> order_id \<longrightarrow> orders_table db' p = orders_table db p"
    "order_status_of db' order_id = (if orders_table db order_id = None then None else Some st)"
  using assms
  by (auto simp: update_order_status_def order_status_of_def split: option.splits if_splits)

lemma clear_cart_empty: "get_user_cart (clear_cart db u) u = []"
  by (simp add: clear_cart_def clear_user_cart_def update_user_cart_def get_user_cart_def
        split: option.splits)

lemma clear_cart_frame [simp]:
  "orders_table (clear_cart db u) = orders_table db"
  "orders_last_id (clear_cart db u) = orders_last_id db"
  "user_sessions (clear_cart db u) = user_sessions db"
  "discount_codes (clear_cart db u) = discount_codes db"
  "discount_usage (clear_cart db u) = discount_usage db"
  by (simp_all add: clear_cart_def clear_user_cart_def)

lemma get_user_cart_cong: "cart_data db' = cart_data db \<Longrightarrow> get_user_cart db' u = get_user_cart db u"
  by (simp add: get_user_cart_def)

lemma waiting_on_iff:
  "waiting_on db u order_id \<longleftrightarrow>
   (\<exists>d. user_sessions db u = Some (''WAITING_PAYMENT'', d) \<and> sd_order_id d = Some order_id
        \<and> order_id \<noteq> 0)"
  by (auto simp: waiting_on_def split: option.splits)

lemma check_payment_status_cases:
  assumes "check_payment_status w fetch lat db u = Inr (db', r)"
  shows "(db' = db \<and> (r = Answer ''No pending payment found'' \<or> r = Answer ''Payment not found yet. Please wait a few minutes after sending.''))
       \<or> (\<exists>order_id a c h db1.
             user_sessions db u \<noteq> None \<and> fst (the (user_sessions db u)) = ''WAITING_PAYMENT''
           \<and> waiting_on db u order_id
           \<and> sd_amount (snd (the (user_sessions db u))) = Some a
           \<and> sd_comment (snd (the (user_sessions db u))) = Some c
           \<and> verify_payment w fetch lat a c 5 = (True, h)
           \<and> update_order_status db order_id Paid h = Inr db1
           \<and> db' = record_discount_usage (clear_user_state (clear_cart db1 u) u)
                      (snd (the (user_sessions db u))) u order_id
           \<and> r = PaymentConfirmed order_id a h)"
  using assms
  by (auto simp: check_payment_status_def get_user_state_def has_order_id_def waiting_on_def Let_def
           split: option.splits if_splits prod.splits sum.splits)

lemma check_payment_status_confirmed:
  assumes "check_payment_status w fetch lat db u = Inr (db', PaymentConfirmed order_id a h)"
  shows "user_sessions db' u = None"
    and "get_user_cart db' u = []"
    and "orders_table db order_id \<noteq> None \<longrightarrow> order_status_of db' order_id = Some Paid"
    and "length (discount_usage db') \<le> length (discount_usage db) + 1"
    and "settles db db' u order_id Paid"
proof -
  from check_payment_status_cases[OF assms] obtain db1 where
    w: "waiting_on db u order_id"
    and up: "update_order_status db order_id Paid h = Inr db1"
    and db': "db' = record_discount_usage (clear_user_state (clear_cart db1 u) u)
                      (snd (the (user_sessions db u))) u order_id"
    by auto
  note fr = update_order_status_frame[OF up]
  show "user_sessions db' u = None" by (simp add: db')
  show "get_user_cart db' u = []"
    using clear_cart_empty[of db1 u] by (simp add: db' get_user_cart_def)
  show paid: "orders_table db order_id \<noteq> None \<longrightarrow> order_status_of db' order_id = Some Paid"
    using fr(7) by (simp add: db' order_status_of_def)
  show "length (discount_usage db') \<le> length (discount_usage db) + 1"
    using record_discount_usage_length[of "clear_user_state (clear_cart db1 u) u"
        "snd (the (user_sessions db u))" u order_id] fr(5)
    by (simp add: db')
  show "settles db db' u order_id Paid"
    unfolding settles_def using w fr by (simp add: db' order_status_of_def)
qed

lemma check_payment_status_no_session:
  "user_sessions db u = None \<Longrightarrow>
   check_payment_status w fetch lat db u = Inr (db, Answer ''No pending payment found'')"
  by (simp add: check_payment_status_def get_user_state_def)

lemma check_payment_status_succeeds:
  assumes "user_sessions db u = Some (''WAITING_PAYMENT'', d)"
    and "sd_order_id d = Some order_id" "order_id \<noteq> 0"
    and "sd_amount d = Some a" "sd_comment d = Some c"
    and "verify_payment w fetch lat a c 5 = (True, Some h)" "sql_bindable h"
  shows "\<exists>db'. check_payment_status w fetch lat db u
               = Inr (db', PaymentConfirmed order_id a (Some h))"
proof -
  from assms(7) have "\<exists>db1. update_order_status db order_id Paid (Some h) = Inr db1"
    by (cases "truthy h") (simp_all add: update_order_status_def)
  then obtain db1 where "update_order_status db order_id Paid (Some h) = Inr db1" ..
  with assms(1-6) show ?thesis
    by (simp add: check_payment_status_def get_user_state_def has_order_id_def Let_def)
qed

text \<open>
  Claim C6. When a call of \<open>check_payment_status\<close> confirms the payment of an order, the
  order is paid, the cart is empty, at most one usage row has been written, and the
  session is gone; a second call for the same user, whatever the ledger then shows, finds
  no pending payment and returns the tables unchanged: no second usage row, no second
  increment of the used count, no second clearing of the cart. The first call does
  confirm whenever the session waits for the order and the matcher finds the payment with
  a hash the store can bind.
\<close>

theorem second_confirmation_is_noop:
  "(check_payment_status w fetch lat db u = Inr (db', PaymentConfirmed order_id a h) \<longrightarrow>
      check_payment_status w fetch' lat' db' u = Inr (db', Answer ''No pending payment found'')
    \<and> step w db' (CheckPaymentStatus u fetch' lat') = db'
    \<and> (orders_table db order_id \<noteq> None \<longrightarrow> order_status_of db' order_id = Some Paid)
    \<and> get_user_cart db' u = []
    \<and> length (discount_usage db') \<le> length (discount_usage db) + 1)
   \<and> (user_sessions db u = Some (''WAITING_PAYMENT'', d)
        \<and> sd_order_id d = Some order_id \<and> order_id \<noteq> 0
        \<and> sd_amount d = Some a \<and> sd_comment d = Some c
        \<and> verify_payment w fetch lat a c 5 = (True, Some tx_hash) \<and> sql_bindable tx_hash \<longrightarrow>
      (\<exists>db1. check_payment_status w fetch lat db u
               = Inr (db1, PaymentConfirmed order_id a (Some tx_hash))))"
proof -
  have first: "check_payment_status w fetch' lat' db' u = Inr (db', Answer ''No pending payment found'')
    \<and> step w db' (CheckPaymentStatus u fetch' lat') = db'
    \<and> (orders_table db order_id \<noteq> None \<longrightarrow> order_status_of db' order_id = Some Paid)
    \<and> get_user_cart db' u = []
    \<and> length (discount_usage db') \<le> length (discount_usage db) + 1"
    if conf: "check_payment_status w fetch lat db u = Inr (db', PaymentConfirmed order_id a h)"
  proof -
    note c = check_payment_status_confirmed[OF conf]
    have again: "check_payment_status w fetch' lat' db' u
                 = Inr (db', Answer ''No pending payment found'')"
      using check_payment_status_no_session[OF c(1)] .
    then have "step w db' (CheckPaymentStatus u fetch' lat') = db'" by simp
    with again c(2,3,4) show ?thesis by blast
  qed
  have second: "\<exists>db1. check_payment_status w fetch lat db u
               = Inr (db1, PaymentConfirmed order_id a (Some tx_hash))"
    if "user_sessions db u = Some (''WAITING_PAYMENT'', d)
        \<and> sd_order_id d = Some order_id \<and> order_id \<noteq> 0
        \<and> sd_amount d = Some a \<and> sd_comment d = Some c
        \<and> verify_payment w fetch lat a c 5 = (True, Some tx_hash) \<and> sql_bindable tx_hash"
    using check_payment_status_succeeds[of db u d order_id a c w fetch lat tx_hash] that by blast
  from first second show ?thesis by blast
qed
subsection \<open>The effect of each handler on orders and sessions\<close>

lemma quiet_refl: "quiet db db"
  by (simp add: quiet_def)

lemma quiet_sessions:
  assumes "orders_table db' = orders_table db" "orders_last_id db' = orders_last_id db"
    and "\<And>u. user_sessions db' u = user_sessions db u \<or> (\<forall>order_id. \<not> waiting_on db' u order_id)"
  shows "quiet db db'"
  unfolding quiet_def
proof (intro conjI allI impI)
  fix u order_id
  assume w: "waiting_on db' u order_id"
  with assms(3)[of u] have "user_sessions db' u = user_sessions db u" by blast
  with w show "waiting_on db u order_id" by (simp add: waiting_on_def)
qed (simp_all add: assms)

lemma validate_cart_frame:
  "orders_table (fst (validate_cart db u)) = orders_table db"
  "orders_last_id (fst (validate_cart db u)) = orders_last_id db"
  "user_sessions (fst (validate_cart db u)) = user_sessions db"
  by (simp_all add: validate_cart_def Let_def split: prod.splits)

lemma prepare_order_data_frame:
  "orders_table (fst (prepare_order_data db u)) = orders_table db"
  "orders_last_id (fst (prepare_order_data db u)) = orders_last_id db"
  "user_sessions (fst (prepare_order_data db u)) = user_sessions db"
  using validate_cart_frame[of db u]
  by (auto simp: prepare_order_data_def Let_def split: prod.splits)

lemma process_payment_effect:
  "quiet db (fst (process_payment db u)) \<or> opens db (fst (process_payment db u)) u"
proof (cases "prepare_order_data db u")
  case (Pair db1 od)
  with prepare_order_data_frame[of db u]
  have fr: "orders_table db1 = orders_table db" "orders_last_id db1 = orders_last_id db"
    "user_sessions db1 = user_sessions db" by simp_all
  show ?thesis
  proof (cases od)
    case None
    with Pair fr have "quiet db (fst (process_payment db u))"
      by (simp add: process_payment_def quiet_def waiting_on_def)
    then show ?thesis ..
  next
    case (Some data)
    with Pair fr have "opens db (fst (process_payment db u)) u"
      unfolding opens_def
      by (auto simp: process_payment_def create_order_def get_user_state_def Let_def
               order_status_of_def waiting_on_def
               split: prod.splits option.splits)
    then show ?thesis ..
  qed
qed

lemma check_payment_status_effect:
  "check_payment_status w fetch lat db u = Inr (db', r) \<Longrightarrow>
   quiet db db' \<or> (\<exists>order_id. settles db db' u order_id Paid)"
proof -
  assume a: "check_payment_status w fetch lat db u = Inr (db', r)"
  from check_payment_status_cases[OF a] show ?thesis
  proof
    assume "db' = db \<and> (r = Answer ''No pending payment found'' \<or> r = Answer ''Payment not found yet. Please wait a few minutes after sending.'')"
    then show ?thesis by (simp add: quiet_refl)
  next
    assume "\<exists>order_id a c h db1.
             user_sessions db u \<noteq> None \<and> fst (the (user_sessions db u)) = ''WAITING_PAYMENT''
           \<and> waiting_on db u order_id
           \<and> sd_amount (snd (the (user_sessions db u))) = Some a
           \<and> sd_comment (snd (the (user_sessions db u))) = Some c
           \<and> verify_payment w fetch lat a c 5 = (True, h)
           \<and> update_order_status db order_id Paid h = Inr db1
           \<and> db' = record_discount_usage (clear_user_state (clear_cart db1 u) u)
                      (snd (the (user_sessions db u))) u order_id
           \<and> r = PaymentConfirmed order_id a h"
    then obtain order_id a h where "r = PaymentConfirmed order_id a h" by blast
    with a check_payment_status_confirmed(5)[of w fetch lat db u db' order_id a h]
    show ?thesis by blast
  qed
qed

lemma cancel_current_order_effect:
  assumes "cancel_current_order db u = Inr (db', r)"
  shows "(db' = db \<and> r = Answer ''No pending order to cancel'')
       \<or> (\<exists>order_id. settles db db' u order_id Cancelled \<and> cart_data db' = cart_data db)"
proof (cases "fst (get_user_state db u) = Some ''WAITING_PAYMENT''
              \<and> has_order_id (snd (get_user_state db u))")
  case False
  with assms show ?thesis
    by (auto simp: cancel_current_order_def Let_def split: prod.splits)
next
  case True
  then obtain d order_id where s: "user_sessions db u = Some (''WAITING_PAYMENT'', d)"
    "sd_order_id d = Some order_id" "order_id \<noteq> 0"
    by (auto simp: get_user_state_def has_order_id_def split: option.splits prod.splits)
  then have w: "waiting_on db u order_id" by (simp add: waiting_on_def)
  from s assms obtain db1 where up: "update_order_status db order_id Cancelled None = Inr db1"
    and db': "db' = clear_user_state db1 u"
    by (auto simp: cancel_current_order_def get_user_state_def has_order_id_def Let_def
             split: sum.splits)
  note fr = update_order_status_frame[OF up]
  have "settles db db' u order_id Cancelled"
    unfolding settles_def using w fr by (simp add: db' order_status_of_def)
  moreover have "cart_data db' = cart_data db" using fr(3) by (simp add: db')
  ultimately show ?thesis by blast
qed

lemma remove_discount_effect: "quiet db (remove_discount db u)"
  unfolding quiet_def
  by (auto simp: remove_discount_def waiting_on_def split: option.splits prod.splits if_splits)

subsection \<open>Consistency of sessions and orders along a run\<close>

lemma sessions_consistentD:
  assumes "sessions_consistent db"
  shows "waiting_on db v p \<Longrightarrow> p \<le> orders_last_id db"
    and "waiting_on db v p \<Longrightarrow> order_status_of db p = None \<or> order_status_of db p = Some Pending"
    and "waiting_on db v p \<Longrightarrow> waiting_on db v' p \<Longrightarrow> v = v'"
    and "orders_table db p \<noteq> None \<Longrightarrow> p \<le> orders_last_id db"
  using assms unfolding sessions_consistent_def by blast+

lemma quiet_consistent:
  assumes c: "sessions_consistent db" and q: "quiet db db'"
  shows "sessions_consistent db'" and "order_status_of db' p = order_status_of db p"
proof -
  from q have eq: "orders_table db' = orders_table db" "orders_last_id db' = orders_last_id db"
    and w: "\<And>u order_id. waiting_on db' u order_id \<Longrightarrow> waiting_on db u order_id"
    by (auto simp: quiet_def)
  show st: "order_status_of db' p = order_status_of db p" for p
    by (simp add: order_status_of_def eq)
  from c w show "sessions_consistent db'"
    unfolding sessions_consistent_def by (simp add: st eq) blast
qed

lemma opens_consistent:
  assumes c: "sessions_consistent db" and o: "opens db db' u"
  shows "sessions_consistent db'"
    and "order_status_of db p \<noteq> None \<Longrightarrow> order_status_of db' p = order_status_of db p"
    and "order_status_of db' p = Some Cancelled \<Longrightarrow> order_status_of db p = Some Cancelled"
proof -
  let ?n = "orders_last_id db + 1"
  from o have new: "order_status_of db' ?n = Some Pending"
    and old: "\<And>p. p \<noteq> ?n \<Longrightarrow> orders_table db' p = orders_table db p"
    and last: "orders_last_id db' = ?n"
    and others: "\<And>v. v \<noteq> u \<Longrightarrow> user_sessions db' v = user_sessions db v"
    and mine: "\<And>order_id. waiting_on db' u order_id \<Longrightarrow> order_id = ?n"
    by (auto simp: opens_def)
  note wl = sessions_consistentD(1)[OF c] and ws = sessions_consistentD(2)[OF c]
    and inj = sessions_consistentD(3)[OF c] and dom = sessions_consistentD(4)[OF c]
  have st: "order_status_of db' p = order_status_of db p" if "p \<noteq> ?n" for p
    using old[OF that] by (simp add: order_status_of_def)
  have earlier: "waiting_on db v order_id" if "waiting_on db' v order_id" "v \<noteq> u" for v order_id
    using that others[of v] by (simp add: waiting_on_def)
  have bound: "order_id \<le> ?n \<and> (order_status_of db' order_id = None
                 \<or> order_status_of db' order_id = Some Pending)"
    if w: "waiting_on db' v order_id" for v order_id
  proof (cases "v = u")
    case True
    with w mine have "order_id = ?n" by blast
    with new show ?thesis by simp
  next
    case False
    from earlier[OF w False] wl ws have "order_id \<le> orders_last_id db"
      "order_status_of db order_id = None \<or> order_status_of db order_id = Some Pending"
      by blast+
    then show ?thesis using st[of order_id] by auto
  qed
  have inj': "v = v'" if w: "waiting_on db' v order_id" and w': "waiting_on db' v' order_id"
    for v v' order_id
  proof (cases "v = u")
    case True
    with w mine have n: "order_id = ?n" by blast
    show ?thesis
    proof (cases "v' = u")
      case True
      with \<open>v = u\<close> show ?thesis by simp
    next
      case False
      from earlier[OF w' False] wl n show ?thesis by fastforce
    qed
  next
    case False
    show ?thesis
    proof (cases "v' = u")
      case True
      with w' mine have "order_id = ?n" by blast
      with earlier[OF w False] wl show ?thesis by fastforce
    next
      case False
      from earlier[OF w \<open>v \<noteq> u\<close>] earlier[OF w' False] inj show ?thesis by blast
    qed
  qed
  have dom': "p \<le> ?n" if "orders_table db' p \<noteq> None" for p
  proof (cases "p = ?n")
    case True
    then show ?thesis by simp
  next
    case False
    with that old[OF False] dom[of p] show ?thesis by simp
  qed
  from bound inj' dom' last show "sessions_consistent db'"
    unfolding sessions_consistent_def by (simp (no_asm_simp)) blast
  show "order_status_of db' p = order_status_of db p" if "order_status_of db p \<noteq> None"
  proof -
    from that have "orders_table db p \<noteq> None" by (simp add: order_status_of_def)
    from dom[OF this] have "p \<noteq> ?n" by simp
    from st[OF this] show ?thesis .
  qed
  show "order_status_of db p = Some Cancelled" if "order_status_of db' p = Some Cancelled"
  proof -
    from that new have "p \<noteq> ?n" by auto
    from st[OF this] that show ?thesis by simp
  qed
qed

lemma settles_consistent:
  assumes c: "sessions_consistent db" and s: "settles db db' u order_id st"
  shows "sessions_consistent db'"
    and "order_status_of db p = Some Paid \<Longrightarrow> order_status_of db' p = Some Paid"
    and "order_status_of db' p = Some Cancelled \<Longrightarrow>
         order_status_of db p = Some Pending \<or> order_status_of db p = Some Cancelled"
proof -
  from s have w: "waiting_on db u order_id"
    and sess: "user_sessions db' = (user_sessions db)(u := None)"
    and last: "orders_last_id db' = orders_last_id db"
    and old: "\<And>p. p \<noteq> order_id \<Longrightarrow> orders_table db' p = orders_table db p"
    and new: "order_status_of db' order_id
                = (if orders_table db order_id = None then None else Some st)"
    by (auto simp: settles_def)
  note wl = sessions_consistentD(1)[OF c] and ws = sessions_consistentD(2)[OF c]
    and inj = sessions_consistentD(3)[OF c] and dom = sessions_consistentD(4)[OF c]
  have st: "order_status_of db' p = order_status_of db p" if "p \<noteq> order_id" for p
    using old[OF that] by (simp add: order_status_of_def)
  have earlier: "waiting_on db v p \<and> v \<noteq> u" if "waiting_on db' v p" for v p
    using that sess by (auto simp: waiting_on_def split: if_splits)
  have other: "p \<noteq> order_id" if "waiting_on db' v p" for v p
    using earlier[OF that] inj[OF w, of v] by blast
  have bound: "p \<le> orders_last_id db \<and> (order_status_of db' p = None
                 \<or> order_status_of db' p = Some Pending)" if "waiting_on db' v p" for v p
    using earlier[OF that] wl[of v p] ws[of v p] st[OF other[OF that]] by auto
  have inj': "v = v'" if "waiting_on db' v p" "waiting_on db' v' p" for v v' p
    using earlier[OF that(1)] earlier[OF that(2)] inj by blast
  have dom': "p \<le> orders_last_id db" if "orders_table db' p \<noteq> None" for p
  proof (cases "p = order_id")
    case True
    with wl[OF w] show ?thesis by simp
  next
    case False
    with that old[OF False] dom[of p] show ?thesis by simp
  qed
  from bound inj' dom' last show "sessions_consistent db'"
    unfolding sessions_consistent_def by (simp (no_asm_simp)) blast
  show "order_status_of db' p = Some Paid" if "order_status_of db p = Some Paid"
  proof -
    from that ws[OF w] have "p \<noteq> order_id" by auto
    from st[OF this] that show ?thesis by simp
  qed
  show "order_status_of db p = Some Pending \<or> order_status_of db p = Some Cancelled"
    if "order_status_of db' p = Some Cancelled"
  proof (cases "p = order_id")
    case True
    with that new have "orders_table db order_id \<noteq> None" by (auto split: if_splits)
    then have "order_status_of db order_id \<noteq> None" by (simp add: order_status_of_def)
    with ws[OF w] True show ?thesis by simp
  next
    case False
    from st[OF this] that show ?thesis by simp
  qed
qed

lemma step_effect:
  "quiet db (step w db a) \<or> (\<exists>u. opens db (step w db a) u)
   \<or> (\<exists>u order_id st. settles db (step w db a) u order_id st)"
proof (cases a)
  case (ProcessPayment u)
  with process_payment_effect[of db u] show ?thesis by auto
next
  case (CheckPaymentStatus u fetch lat)
  show ?thesis
  proof (cases "check_payment_status w fetch lat db u")
    case (Inl e)
    with CheckPaymentStatus show ?thesis by (simp add: quiet_refl)
  next
    case (Inr res)
    obtain db' r where "res = (db', r)" by (cases res)
    with Inr CheckPaymentStatus check_payment_status_effect[of w fetch lat db u db' r]
    show ?thesis by auto
  qed
next
  case (CancelCurrentOrder u)
  show ?thesis
  proof (cases "cancel_current_order db u")
    case (Inl e)
    with CancelCurrentOrder show ?thesis by (simp add: quiet_refl)
  next
    case (Inr res)
    obtain db' r where "res = (db', r)" by (cases res)
    with Inr CancelCurrentOrder cancel_current_order_effect[of db u db' r]
    show ?thesis by (auto simp: quiet_refl)
  qed
next
  case (RemoveDiscount u)
  with remove_discount_effect[of db u] show ?thesis by simp
next
  case (SetUserState u state data)
  then have "quiet db (step w db a)"
    by (auto simp: quiet_def waiting_on_def split: if_splits)
  then show ?thesis ..
next
  case (ClearUserState u)
  then have "quiet db (step w db a)"
    by (auto simp: quiet_def waiting_on_def split: if_splits)
  then show ?thesis ..
next
  case (UpdateUserCart u cart)
  then have "quiet db (step w db a)"
    by (auto simp: quiet_def waiting_on_def)
  then show ?thesis ..
qed

lemma step_consistent:
  assumes "sessions_consistent db"
  shows "sessions_consistent (step w db a)"
    and "order_status_of db p = Some Paid \<Longrightarrow> order_status_of (step w db a) p = Some Paid"
    and "order_status_of (step w db a) p = Some Cancelled \<Longrightarrow>
         order_status_of db p = Some Pending \<or> order_status_of db p = Some Cancelled"
proof -
  let ?db' = "step w db a"
  from step_effect[of db w a]
  consider (q) "quiet db ?db'" | (o) u where "opens db ?db' u"
    | (s) u order_id st where "settles db ?db' u order_id st"
    by blast
  note cases = this
  show "sessions_consistent ?db'"
    using cases
    by cases (rule quiet_consistent(1)[OF assms], assumption,
              rule opens_consistent(1)[OF assms], assumption,
              rule settles_consistent(1)[OF assms], assumption)
  show "order_status_of ?db' p = Some Paid" if paid: "order_status_of db p = Some Paid"
    using cases
  proof cases
    case q
    from quiet_consistent(2)[OF assms q, of p] paid show ?thesis by simp
  next
    case o
    from opens_consistent(2)[OF assms o, of p] paid show ?thesis by simp
  next
    case s
    from settles_consistent(2)[OF assms s paid] show ?thesis .
  qed
  show "order_status_of db p = Some Pending \<or> order_status_of db p = Some Cancelled"
    if canc: "order_status_of ?db' p = Some Cancelled"
    using cases
  proof cases
    case q
    from quiet_consistent(2)[OF assms q, of p] canc show ?thesis by simp
  next
    case o
    from opens_consistent(3)[OF assms o canc] show ?thesis by simp
  next
    case s
    from settles_consistent(3)[OF assms s canc] show ?thesis .
  qed
qed

lemma run_consistent:
  "sessions_consistent db \<Longrightarrow>
   sessions_consistent (run w db actions)
   \<and> (order_status_of db p = Some Paid \<longrightarrow> order_status_of (run w db actions) p = Some Paid)"
proof (induction actions arbitrary: db)
  case Nil
  then show ?case by (simp add: run_def)
next
  case (Cons a actions)
  from step_consistent(1)[OF Cons.prems, where w = w and a = a]
    step_consistent(2)[OF Cons.prems, where w = w and a = a and p = p]
    Cons.IH[of "step w db a"]
  show ?case by (simp add: run_def)
qed

lemma run_append: "run w db (xs @ ys) = run w (run w db xs) ys"
  by (simp add: run_def)

lemmas store_eval =
  shirt_def order42_def waiting_session_def waiting_db_def paid_db_def cart_db_def
  empty_database_def save20_def half_price_def

lemma paying_tx_found:
  "verify_payment sample_wallet (steady_ledger [paying_tx]) no_latency 80 ''ORDER_42_7'' 5
     = (True, Some (JStr ''h-paying''))"
  unfolding verify_payment_def by (rule verify_loop_match) (simp_all add: ledger_eval)

theorem second_confirmation_is_noop_witness:
  "\<exists>db1. check_payment_status sample_wallet (steady_ledger [paying_tx]) no_latency waiting_db 7
             = Inr (db1, PaymentConfirmed 42 80 (Some (JStr ''h-paying'')))
        \<and> check_payment_status sample_wallet (steady_ledger [paying_tx]) no_latency db1 7
             = Inr (db1, Answer ''No pending payment found'')
        \<and> order_status_of db1 42 = Some Paid
        \<and> get_user_cart waiting_db 7 = [shirt] \<and> get_user_cart db1 7 = []
        \<and> length (discount_usage db1) \<le> 1"
proof -
  have pre: "user_sessions waiting_db 7 = Some (''WAITING_PAYMENT'', waiting_session)
        \<and> sd_order_id waiting_session = Some 42 \<and> (42::int) \<noteq> 0
        \<and> sd_amount waiting_session = Some 80 \<and> sd_comment waiting_session = Some ''ORDER_42_7''
        \<and> verify_payment sample_wallet (steady_ledger [paying_tx]) no_latency 80 ''ORDER_42_7'' 5
            = (True, Some (JStr ''h-paying''))
        \<and> sql_bindable (JStr ''h-paying'')"
    using paying_tx_found by (simp add: store_eval)
  from pre second_confirmation_is_noop[where db = waiting_db and u = 7 and d = waiting_session
      and order_id = 42 and a = 80 and c = "''ORDER_42_7''" and w = sample_wallet
      and fetch = "steady_ledger [paying_tx]" and lat = no_latency and tx_hash = "JStr ''h-paying''"]
  obtain db1 where
    first: "check_payment_status sample_wallet (steady_ledger [paying_tx]) no_latency waiting_db 7
             = Inr (db1, PaymentConfirmed 42 80 (Some (JStr ''h-paying'')))"
    by blast
  have there: "orders_table waiting_db 42 \<noteq> None" "get_user_cart waiting_db 7 = [shirt]"
    "length (discount_usage waiting_db) = 0"
    by (simp_all add: store_eval get_user_cart_def)
  from first there
    second_confirmation_is_noop[where db = waiting_db and u = 7 and db' = db1
      and order_id = 42 and a = 80 and h = "Some (JStr ''h-paying'')" and w = sample_wallet
      and fetch = "steady_ledger [paying_tx]" and lat = no_latency
      and fetch' = "steady_ledger [paying_tx]" and lat' = no_latency]
  show ?thesis by auto
qed

lemma waiting_db_confirmed:
  "\<exists>db1. check_payment_status sample_wallet (steady_ledger [paying_tx]) no_latency waiting_db 7
             = Inr (db1, PaymentConfirmed 42 80 (Some (JStr ''h-paying'')))
        \<and> order_status_of db1 42 = Some Paid"
proof -
  have "\<exists>db1. check_payment_status sample_wallet (steady_ledger [paying_tx]) no_latency waiting_db 7
             = Inr (db1, PaymentConfirmed 42 80 (Some (JStr ''h-paying'')))"
    by (rule check_payment_status_succeeds[where d = waiting_session and c = "''ORDER_42_7''"])
       (simp_all add: paying_tx_found store_eval)
  then obtain db1 where
    first: "check_payment_status sample_wallet (steady_ledger [paying_tx]) no_latency waiting_db 7
             = Inr (db1, PaymentConfirmed 42 80 (Some (JStr ''h-paying'')))" ..
  have "orders_table waiting_db 42 \<noteq> None" by (simp add: store_eval)
  with check_payment_status_confirmed(3)[OF first] first show ?thesis by blast
qed

lemma sessions_consistent_empty: "sessions_consistent empty_database"
  by (simp add: sessions_consistent_def waiting_on_def empty_database_def)

text \<open>
  Claim C8, as amended. Along every sequence of handler calls (checkout, payment check,
  cancellation, and the calls that only touch sessions or carts), started from tables
  the handlers themselves built, an order that is paid stays paid, so it is never set to
  cancelled afterwards; and a call sets an order to cancelled only when the order was
  pending. The tables built from the empty store are such tables, and every call keeps
  them so.
\<close>

theorem handlers_never_cancel_a_paid_order:
  assumes "sessions_consistent db"
  shows "sessions_consistent (run w db actions)
       \<and> (order_status_of db p = Some Paid \<longrightarrow> order_status_of (run w db actions) p = Some Paid)
       \<and> (order_status_of (step w db a) p = Some Cancelled \<longrightarrow>
            order_status_of db p = Some Pending \<or> order_status_of db p = Some Cancelled)
       \<and> sessions_consistent (run w empty_database actions)"
  using run_consistent[OF assms, where w = w and actions = actions and p = p]
    step_consistent(3)[OF assms, where w = w and a = a and p = p]
    run_consistent[OF sessions_consistent_empty, where w = w and actions = actions and p = p]
  by blast

theorem handlers_never_cancel_a_paid_order_witness:
  "sessions_consistent waiting_db
   \<and> order_status_of waiting_db 42 = Some Pending
   \<and> order_status_of
        (run sample_wallet waiting_db [CheckPaymentStatus 7 (steady_ledger [paying_tx]) no_latency])
        42 = Some Paid
   \<and> order_status_of
        (run sample_wallet waiting_db
           ([CheckPaymentStatus 7 (steady_ledger [paying_tx]) no_latency]
            @ [CancelCurrentOrder 7, ProcessPayment 7, CancelCurrentOrder 7]))
        42 = Some Paid
   \<and> order_status_of (run sample_wallet waiting_db [CancelCurrentOrder 7]) 42 = Some Cancelled"
proof -
  let ?check = "CheckPaymentStatus 7 (steady_ledger [paying_tx]) no_latency"
  have c: "sessions_consistent waiting_db"
    by (auto simp: sessions_consistent_def waiting_on_def order_status_of_def store_eval
             split: if_splits)
  have pending: "order_status_of waiting_db 42 = Some Pending"
    by (simp add: order_status_of_def store_eval)
  from waiting_db_confirmed obtain db1 where
    first: "check_payment_status sample_wallet (steady_ledger [paying_tx]) no_latency waiting_db 7
             = Inr (db1, PaymentConfirmed 42 80 (Some (JStr ''h-paying'')))"
    and paid: "order_status_of db1 42 = Some Paid"
    by blast
  from first have run1: "run sample_wallet waiting_db [?check] = db1" by (simp add: run_def)
  from handlers_never_cancel_a_paid_order[OF c, where w = sample_wallet and actions = "[?check]"]
  have c1: "sessions_consistent db1" by (simp add: run1)
  from handlers_never_cancel_a_paid_order[OF c1, where p = 42 and w = sample_wallet
      and actions = "[CancelCurrentOrder 7, ProcessPayment 7, CancelCurrentOrder 7]"] paid
  have "order_status_of
          (run sample_wallet db1 [CancelCurrentOrder 7, ProcessPayment 7, CancelCurrentOrder 7]) 42
        = Some Paid" by blast
  then have later: "order_status_of
        (run sample_wallet waiting_db
           ([?check] @ [CancelCurrentOrder 7, ProcessPayment 7, CancelCurrentOrder 7])) 42 = Some Paid"
    by (simp only: run_append run1)
  have cancelled: "order_status_of (run sample_wallet waiting_db [CancelCurrentOrder 7]) 42
                   = Some Cancelled"
    by (simp add: run_def cancel_current_order_def get_user_state_def has_order_id_def
          update_order_status_def order_status_of_def clear_user_state_def store_eval)
  from c pending paid run1 later cancelled show ?thesis by simp
qed

text \<open>
  Claim C8 fails as first written: \<open>update_order_status\<close> does not look at the
  status an order has, and neither does the admin operation built on it; either one sets
  a paid order to cancelled.
\<close>

theorem update_order_status_cancels_a_paid_order:
  "order_status_of paid_db 42 = Some Paid
   \<and> status_after (update_order_status paid_db 42 Cancelled None) 42 = Some Cancelled
   \<and> fst (snd (admin_update_order_status paid_db 42 ''cancelled'' 1))
   \<and> order_status_of (fst (admin_update_order_status paid_db 42 ''cancelled'' 1)) 42
       = Some Cancelled"
  by (simp add: update_order_status_def admin_update_order_status_def status_of_string_def
        get_order_def order_status_of_def status_after_def store_eval)

subsection \<open>Where the cart is cleared\<close>














end
